theory Spec2Isabelle
  imports Complex_Main
begin

section \<open>Python values, exceptions and the interpreter's limits\<close>

text \<open>
  The program (\<^verbatim>\<open>app.py\<close>) turns the text answer of a remote model into a JSON value and
  draws that value as a graph. Its data are the values \<^verbatim>\<open>json.loads\<close> produces: \<^verbatim>\<open>None\<close>,
  booleans, integers, floats, strings, lists and dictionaries. A Python \<^verbatim>\<open>str\<close> is modelled as
  its UTF-8 bytes (\<^typ>\<open>string\<close>); a dictionary as an association list with distinct keys in
  insertion order. \<^verbatim>\<open>JNull\<close> is Python's \<^verbatim>\<open>None\<close>.

  A float is kept as the value of the double: a finite rational, negative zero, an infinity
  or not-a-number.
\<close>

datatype pyfloat = Finite rat | NegZero | PosInf | NegInf | NaN

datatype json =
    JNull
  | JBool bool
  | JInt int
  | JFloat pyfloat
  | JStr string
  | JArr "json list"
  | JObj "(string \<times> json) list"

text \<open>
  Exceptions are values. Only the class matters to the \<^verbatim>\<open>except\<close> clauses of the program;
  \<open>HTTPError\<close> carries the status code that \<^verbatim>\<open>raise_for_status\<close> reports, and
  \<open>RequestException\<close> stands for a failure of the transport (time-out, refused connection).
\<close>

datatype exn =
    JSONDecodeError
  | RecursionError
  | ValueError
  | AttributeError
  | TypeError
  | KeyError
  | IndexError
  | AssertionError
  | HTTPError nat
  | RequestException

text \<open>
  What the interpreter fixes and the program does not: how many nested containers
  \<^verbatim>\<open>json.loads\<close> opens before it raises \<^verbatim>\<open>RecursionError\<close> (what the recursion limit
  leaves at the call), the longest integer literal
  \<^verbatim>\<open>int\<close> converts (\<^verbatim>\<open>sys.get_int_max_str_digits\<close>, absent before Python 3.11), the double a
  number literal denotes, and the \<^verbatim>\<open>repr\<close> of a float and of a string.
\<close>

record python =
  recursion_limit :: nat
  int_max_str_digits :: "nat option"
  float_of :: "string \<Rightarrow> pyfloat"
  float_repr :: "pyfloat \<Rightarrow> string"
  str_repr :: "string \<Rightarrow> string"

subsection \<open>Truth, equality of keys, dictionaries\<close>

text \<open>Python's truth value of a JSON value (\<^verbatim>\<open>if data:\<close>, \<^verbatim>\<open>a or b\<close>, \<^verbatim>\<open>not x\<close>).\<close>

fun truthy :: "json \<Rightarrow> bool" where
  "truthy JNull = False"
| "truthy (JBool b) = b"
| "truthy (JInt i) = (i \<noteq> 0)"
| "truthy (JFloat f) = (f \<noteq> Finite 0 \<and> f \<noteq> NegZero)"
| "truthy (JStr s) = (s \<noteq> [])"
| "truthy (JArr xs) = (xs \<noteq> [])"
| "truthy (JObj kvs) = (kvs \<noteq> [])"

text \<open>\<^verbatim>\<open>a or b\<close>: the first operand when it is true, the second otherwise.\<close>

definition py_or :: "json \<Rightarrow> json \<Rightarrow> json" where
  "py_or a b = (if truthy a then a else b)"

text \<open>The number a value compares as: \<^verbatim>\<open>True == 1 == 1.0\<close>.\<close>

fun num_val :: "json \<Rightarrow> rat option" where
  "num_val (JBool b) = Some (if b then 1 else 0)"
| "num_val (JInt i) = Some (of_int i)"
| "num_val (JFloat (Finite r)) = Some r"
| "num_val (JFloat NegZero) = Some 0"
| "num_val _ = None"

text \<open>
  \<^verbatim>\<open>==\<close> between a value and a node identifier (a string or an integer), as the membership
  test \<^verbatim>\<open>x in ids\<close> of a list applies it: strings by their text, numbers by their value; a
  list or a dictionary equals no identifier.
\<close>

definition key_eq :: "json \<Rightarrow> json \<Rightarrow> bool" where
  "key_eq a b =
     (case (num_val a, num_val b) of
        (Some x, Some y) \<Rightarrow> x = y
      | (None, None) \<Rightarrow> a = b \<and> a \<noteq> JFloat NaN
      | _ \<Rightarrow> False)"

text \<open>\<^verbatim>\<open>d.get(k, default)\<close> and \<^verbatim>\<open>d[k] = v\<close> on a dictionary.\<close>

definition dict_get :: "(string \<times> json) list \<Rightarrow> string \<Rightarrow> json \<Rightarrow> json" where
  "dict_get d k dflt = (case map_of d k of None \<Rightarrow> dflt | Some v \<Rightarrow> v)"

fun dict_set :: "(string \<times> json) list \<Rightarrow> string \<Rightarrow> json \<Rightarrow> (string \<times> json) list" where
  "dict_set [] k v = [(k, v)]"
| "dict_set ((k', v') # kvs) k v =
     (if k' = k then (k, v) # kvs else (k', v') # dict_set kvs k v)"

section \<open>\<^verbatim>\<open>json.loads\<close>\<close>

text \<open>
  The decoder of the standard library, as its scanner reads a \<^verbatim>\<open>str\<close>: strict strings,
  the number grammar \<^verbatim>\<open>-?(0|[1-9][0-9]*)(\.[0-9]+)?([eE][-+]?[0-9]+)?\<close>, the constants
  \<^verbatim>\<open>NaN\<close>, \<^verbatim>\<open>Infinity\<close> and \<^verbatim>\<open>-Infinity\<close>, and the four whitespace characters. Every
  syntax error is a \<^verbatim>\<open>JSONDecodeError\<close>.
\<close>

definition is_json_ws :: "char \<Rightarrow> bool" where
  "is_json_ws c = (c = CHR '' '' \<or> c = CHR 0x09 \<or> c = CHR 0x0A \<or> c = CHR 0x0D)"

definition skip_ws :: "string \<Rightarrow> string" where
  "skip_ws s = dropWhile is_json_ws s"

definition is_digit :: "char \<Rightarrow> bool" where
  "is_digit c = (48 \<le> (of_char c :: nat) \<and> (of_char c :: nat) \<le> 57)"

definition hex_val :: "char \<Rightarrow> nat option" where
  "hex_val c =
     (let n = (of_char c :: nat) in
      if 48 \<le> n \<and> n \<le> 57 then Some (n - 48)
      else if 97 \<le> n \<and> n \<le> 102 then Some (n - 87)
      else if 65 \<le> n \<and> n \<le> 70 then Some (n - 55)
      else None)"

fun hex4 :: "string \<Rightarrow> nat option" where
  "hex4 (a # b # c # d # rest) =
     (case (hex_val a, hex_val b, hex_val c, hex_val d) of
        (Some x, Some y, Some z, Some w) \<Rightarrow> Some (((x * 16 + y) * 16 + z) * 16 + w)
      | _ \<Rightarrow> None)"
| "hex4 _ = None"

text \<open>The UTF-8 bytes of a code point (a lone surrogate takes the three-byte form).\<close>

definition utf8_encode :: "nat \<Rightarrow> string" where
  "utf8_encode n =
     (if n < 0x80 then [char_of n]
      else if n < 0x800 then [char_of (0xC0 + n div 64), char_of (0x80 + n mod 64)]
      else if n < 0x10000 then
        [char_of (0xE0 + n div 4096), char_of (0x80 + n div 64 mod 64), char_of (0x80 + n mod 64)]
      else
        [char_of (0xF0 + n div 262144), char_of (0x80 + n div 4096 mod 64),
         char_of (0x80 + n div 64 mod 64), char_of (0x80 + n mod 64)])"

text \<open>The one-letter escapes: quote, backslash, slash, b, f, n, r, t.\<close>

definition backslash :: "char \<Rightarrow> char option" where
  "backslash c =
     (if c = CHR 0x22 then Some (CHR 0x22)
      else if c = CHR 0x5C then Some (CHR 0x5C)
      else if c = CHR ''/'' then Some (CHR ''/'')
      else if c = CHR ''b'' then Some (CHR 0x08)
      else if c = CHR ''f'' then Some (CHR 0x0C)
      else if c = CHR ''n'' then Some (CHR 0x0A)
      else if c = CHR ''r'' then Some (CHR 0x0D)
      else if c = CHR ''t'' then Some (CHR 0x09)
      else None)"

text \<open>
  The text after \<^verbatim>\<open>\u\<close>: four hexadecimal digits, and a following low surrogate escape
  joined to a high one. The result is the code point and the text that is left.
\<close>

definition decode_u :: "string \<Rightarrow> (nat \<times> string) option" where
  "decode_u s =
     (case hex4 s of
        None \<Rightarrow> None
      | Some u \<Rightarrow>
          (let r = drop 4 s in
           if 0xD800 \<le> u \<and> u \<le> 0xDBFF \<and> take 2 r = [CHR 0x5C, CHR ''u''] then
             (case hex4 (drop 2 r) of
                None \<Rightarrow> None
              | Some u2 \<Rightarrow>
                  if 0xDC00 \<le> u2 \<and> u2 \<le> 0xDFFF
                  then Some (0x10000 + ((u - 0xD800) * 1024 + (u2 - 0xDC00)), drop 6 r)
                  else Some (u, r))
           else Some (u, r)))"

lemma decode_u_length: "decode_u s = Some (u, r) \<Longrightarrow> length r \<le> length s"
  by (auto simp: decode_u_def Let_def split: option.splits if_splits)

text \<open>
  \<^verbatim>\<open>scanstring\<close>, from the character after the opening quote: the decoded string and the
  text after the closing quote.
\<close>

function scanstring :: "string \<Rightarrow> string \<Rightarrow> exn + string \<times> string" where
  "scanstring acc [] = Inl JSONDecodeError"
| "scanstring acc (c # cs) =
     (if c = CHR 0x22 then Inr (acc, cs)
      else if c = CHR 0x5C then
        (case cs of
           [] \<Rightarrow> Inl JSONDecodeError
         | e # cs' \<Rightarrow>
             if e = CHR ''u'' then
               (case decode_u cs' of
                  None \<Rightarrow> Inl JSONDecodeError
                | Some (u, r) \<Rightarrow> scanstring (acc @ utf8_encode u) r)
             else
               (case backslash e of
                  None \<Rightarrow> Inl JSONDecodeError
                | Some ch \<Rightarrow> scanstring (acc @ [ch]) cs'))
      else if (of_char c :: nat) < 0x20 then Inl JSONDecodeError
      else scanstring (acc @ [c]) cs)"
  by pat_completeness auto
termination
  by (relation "measure (\<lambda>(acc, s). length s)") (auto dest: decode_u_length)

lemma scanstring_length: "scanstring acc s = Inr (k, r) \<Longrightarrow> length r < length s"
proof (induction acc s rule: scanstring.induct)
  case (1 acc)
  then show ?case by simp
next
  case (2 acc c cs)
  show ?case
  proof (cases "c = CHR 0x22")
    case True
    with "2.prems" show ?thesis by simp
  next
    case nq: False
    show ?thesis
    proof (cases "c = CHR 0x5C")
      case True
      with nq "2.prems" "2.IH"(1,2) show ?thesis
        by (fastforce split: list.splits if_splits option.splits dest: decode_u_length)
    next
      case False
      with nq "2.prems" "2.IH"(3) show ?thesis
        by (fastforce split: if_splits)
    qed
  qed
qed

lemma skip_ws_length: "length (skip_ws s) \<le> length s"
  by (simp add: skip_ws_def length_dropWhile_le)

lemma skip_ws_Cons_length: "skip_ws s = c # r \<Longrightarrow> length r < length s"
  using skip_ws_length [of s] by simp

definition digit_val :: "char \<Rightarrow> int" where
  "digit_val c = int (of_char c) - 48"

definition decimal :: "string \<Rightarrow> int" where
  "decimal ds = foldl (\<lambda>n c. 10 * n + digit_val c) 0 ds"

text \<open>
  A number at the start of the text, in the three parts of the grammar: the integer part
  (after the sign), the fraction and the exponent, each with the text it leaves. A fraction
  needs a digit after the point and an exponent a digit after its sign; otherwise the part
  is empty and nothing of it is read.
\<close>

definition int_part :: "string \<Rightarrow> (string \<times> string) option" where
  "int_part s =
     (case s of
        [] \<Rightarrow> None
      | c # cs \<Rightarrow>
          if \<not> is_digit c then None
          else if c = CHR ''0'' then Some ([c], cs)
          else Some (c # takeWhile is_digit cs, dropWhile is_digit cs))"

definition frac_part :: "string \<Rightarrow> string" where
  "frac_part s =
     (case s of
        p # d # r \<Rightarrow> if p = CHR ''.'' \<and> is_digit d then p # d # takeWhile is_digit r else []
      | _ \<Rightarrow> [])"

definition exp_part :: "string \<Rightarrow> string" where
  "exp_part s =
     (case s of
        [] \<Rightarrow> []
      | e # r \<Rightarrow>
          if e = CHR ''e'' \<or> e = CHR ''E'' then
            (let sg = (if take 1 r = ''+'' \<or> take 1 r = ''-'' then take 1 r else []);
                 ds = takeWhile is_digit (drop (length sg) r)
             in if ds = [] then [] else e # sg @ ds)
          else [])"

text \<open>
  An integer literal longer than the interpreter's limit makes \<^verbatim>\<open>int\<close> raise
  \<^verbatim>\<open>ValueError\<close>; a literal with a fraction or an exponent is a float.
\<close>

definition match_number :: "python \<Rightarrow> string \<Rightarrow> exn + json \<times> string" where
  "match_number py s =
     (let neg = (take 1 s = ''-'') in
      case int_part (if neg then drop 1 s else s) of
        None \<Rightarrow> Inl JSONDecodeError
      | Some (ip, r1) \<Rightarrow>
          (let frac = frac_part r1;
               ex = exp_part (drop (length frac) r1);
               r = drop (length frac + length ex) r1
           in if frac = [] \<and> ex = [] then
                (if (case int_max_str_digits py of None \<Rightarrow> False | Some m \<Rightarrow> m < length ip)
                 then Inl ValueError
                 else Inr (JInt (if neg then - decimal ip else decimal ip), r))
              else Inr (JFloat (float_of py (take (length s - length r) s)), r)))"

lemma int_part_length: "int_part s = Some (ip, r) \<Longrightarrow> length r < length s"
  by (auto simp: int_part_def length_dropWhile_le le_imp_less_Suc split: list.splits if_splits)

lemma match_number_length:
  assumes "match_number py s = Inr (v, r)"
  shows "length r < length s"
proof -
  let ?s1 = "if take 1 s = ''-'' then drop 1 s else s"
  from assms obtain ip r1 where ip: "int_part ?s1 = Some (ip, r1)"
    by (auto simp: match_number_def Let_def split: option.splits)
  let ?k = "length (frac_part r1) + length (exp_part (drop (length (frac_part r1)) r1))"
  from assms ip have "r = drop ?k r1"
    by (auto simp: match_number_def Let_def split: if_splits)
  then have "length r \<le> length r1" by simp
  moreover from int_part_length [OF ip] have "length r1 < length s"
    by (simp split: if_splits)
  ultimately show ?thesis by simp
qed

text \<open>
  \<open>scan_once py d s\<close> reads one value at the start of \<open>s\<close>, \<open>d\<close> containers deep;
  \<open>parse_array\<close> and \<open>parse_object\<close> read the items of a container that is not empty, up
  to its closing bracket. Opening a container beyond the interpreter's limit raises
  \<^verbatim>\<open>RecursionError\<close>. In a dictionary a repeated key keeps its first place and its last value.

  The two length tests after a call of \<open>scan_once\<close> are there for the termination proof only:
  \<open>scan_once_length\<close> below shows that they never fail.
\<close>

function scan_once :: "python \<Rightarrow> nat \<Rightarrow> string \<Rightarrow> exn + json \<times> string"
  and parse_array :: "python \<Rightarrow> nat \<Rightarrow> json list \<Rightarrow> string \<Rightarrow> exn + json \<times> string"
  and parse_object ::
    "python \<Rightarrow> nat \<Rightarrow> (string \<times> json) list \<Rightarrow> string \<Rightarrow> exn + json \<times> string"
where
  "scan_once py d s =
     (case s of
        [] \<Rightarrow> Inl JSONDecodeError
      | c # cs \<Rightarrow>
          if c = CHR 0x22 then
            (case scanstring [] cs of
               Inl e \<Rightarrow> Inl e
             | Inr (str, r) \<Rightarrow> Inr (JStr str, r))
          else if c = CHR ''{'' then
            (if recursion_limit py \<le> d then Inl RecursionError
             else case skip_ws cs of
                    [] \<Rightarrow> Inl JSONDecodeError
                  | c1 # r1 \<Rightarrow>
                      if c1 = CHR ''}'' then Inr (JObj [], r1)
                      else parse_object py (Suc d) [] (c1 # r1))
          else if c = CHR ''['' then
            (if recursion_limit py \<le> d then Inl RecursionError
             else case skip_ws cs of
                    [] \<Rightarrow> Inl JSONDecodeError
                  | c1 # r1 \<Rightarrow>
                      if c1 = CHR '']'' then Inr (JArr [], r1)
                      else parse_array py (Suc d) [] (c1 # r1))
          else if take 4 s = ''null'' then Inr (JNull, drop 4 s)
          else if take 4 s = ''true'' then Inr (JBool True, drop 4 s)
          else if take 5 s = ''false'' then Inr (JBool False, drop 5 s)
          else if take 3 s = ''NaN'' then Inr (JFloat NaN, drop 3 s)
          else if take 8 s = ''Infinity'' then Inr (JFloat PosInf, drop 8 s)
          else if take 9 s = ''-Infinity'' then Inr (JFloat NegInf, drop 9 s)
          else match_number py s)"
| "parse_array py d acc s =
     (case scan_once py d s of
        Inl e \<Rightarrow> Inl e
      | Inr (v, r) \<Rightarrow>
          if length s \<le> length r then Inl JSONDecodeError
          else
            (case skip_ws r of
               [] \<Rightarrow> Inl JSONDecodeError
             | c # r1 \<Rightarrow>
                 if c = CHR '']'' then Inr (JArr (acc @ [v]), r1)
                 else if c = CHR '','' then parse_array py d (acc @ [v]) (skip_ws r1)
                 else Inl JSONDecodeError))"
| "parse_object py d acc s =
     (case s of
        [] \<Rightarrow> Inl JSONDecodeError
      | q # r0 \<Rightarrow>
          if q \<noteq> CHR 0x22 then Inl JSONDecodeError
          else
            (case scanstring [] r0 of
               Inl e \<Rightarrow> Inl e
             | Inr (key, r1) \<Rightarrow>
                 (case skip_ws r1 of
                    [] \<Rightarrow> Inl JSONDecodeError
                  | c # r2 \<Rightarrow>
                      if c \<noteq> CHR '':'' then Inl JSONDecodeError
                      else
                        (case scan_once py d (skip_ws r2) of
                           Inl e \<Rightarrow> Inl e
                         | Inr (v, r3) \<Rightarrow>
                             if length (skip_ws r2) \<le> length r3 then Inl JSONDecodeError
                             else
                               (case skip_ws r3 of
                                  [] \<Rightarrow> Inl JSONDecodeError
                                | c' # r4 \<Rightarrow>
                                    if c' = CHR ''}'' then Inr (JObj (dict_set acc key v), r4)
                                    else if c' = CHR '','' then
                                      parse_object py d (dict_set acc key v) (skip_ws r4)
                                    else Inl JSONDecodeError)))))"
  by pat_completeness auto
termination
proof (relation "measure (\<lambda>x. case x of
          Inl (py, d, s) \<Rightarrow> 2 * length s
        | Inr (Inl (py, d, acc, s)) \<Rightarrow> 2 * length s + 1
        | Inr (Inr (py, d, acc, s)) \<Rightarrow> 2 * length s + 1)", goal_cases)
  case 1
  then show ?case by simp
next
  case (2 py d s c cs c1 r1)
  then show ?case using skip_ws_length [of cs] by simp
next
  case (3 py d s c cs c1 r1)
  then show ?case using skip_ws_length [of cs] by simp
next
  case (4 py d acc s)
  then show ?case by simp
next
  case (5 py d acc s x v r c r1)
  then show ?case
    using skip_ws_length [of r1] skip_ws_Cons_length [of r c r1] by simp
next
  case (6 py d acc s q r0 x key r1 c r2)
  then show ?case
    using skip_ws_length [of r2] skip_ws_Cons_length [of r1 c r2]
      scanstring_length [of "[]" r0 key r1] by simp
next
  case (7 py d acc s q r0 x key r1 c r2 y v r3 c' r4)
  then show ?case
    using skip_ws_length [of r4] skip_ws_Cons_length [of r3 c' r4]
      skip_ws_length [of r2] skip_ws_Cons_length [of r1 c r2]
      scanstring_length [of "[]" r0 key r1] by simp
qed

text \<open>
  \<^verbatim>\<open>json.loads(s)\<close> for a \<^verbatim>\<open>str\<close>: a leading byte-order mark is refused, whitespace
  around the one value is skipped, anything after it is "extra data".
\<close>

definition json_loads :: "python \<Rightarrow> string \<Rightarrow> exn + json" where
  "json_loads py s =
     (if take 3 s = [CHR 0xEF, CHR 0xBB, CHR 0xBF] then Inl JSONDecodeError
      else case scan_once py 0 (skip_ws s) of
             Inl e \<Rightarrow> Inl e
           | Inr (v, r) \<Rightarrow> if skip_ws r = [] then Inr v else Inl JSONDecodeError)"

text \<open>The exceptions that the decoder raises.\<close>

definition decoder_exn :: "exn \<Rightarrow> bool" where
  "decoder_exn e = (e = JSONDecodeError \<or> e = RecursionError \<or> e = ValueError)"

section \<open>Strings\<close>

text \<open>
  \<^verbatim>\<open>s.replace(old, new)\<close> for a pattern that is not empty (the program replaces two
  literals): every occurrence, from the left, without overlap.
\<close>

function str_replace :: "string \<Rightarrow> string \<Rightarrow> string \<Rightarrow> string" where
  "str_replace old new [] = []"
| "str_replace old new (c # cs) =
     (if old \<noteq> [] \<and> take (length old) (c # cs) = old
      then new @ str_replace old new (drop (length old) (c # cs))
      else c # str_replace old new cs)"
  by pat_completeness auto
termination
  by (relation "measure (\<lambda>(old, new, s). length s)") auto

text \<open>
  The characters \<^verbatim>\<open>str.strip()\<close> removes, those with \<^verbatim>\<open>str.isspace()\<close>, in UTF-8:
  U+0009 to U+000D, U+001C to U+0020, U+0085, U+00A0, U+1680, U+2000 to U+200A, U+2028,
  U+2029, U+202F, U+205F and U+3000.
\<close>

definition py_whitespace :: "string list" where
  "py_whitespace =
     [[CHR 0x09], [CHR 0x0A], [CHR 0x0B], [CHR 0x0C], [CHR 0x0D],
      [CHR 0x1C], [CHR 0x1D], [CHR 0x1E], [CHR 0x1F], [CHR 0x20],
      [CHR 0xC2, CHR 0x85], [CHR 0xC2, CHR 0xA0], [CHR 0xE1, CHR 0x9A, CHR 0x80],
      [CHR 0xE2, CHR 0x80, CHR 0x80], [CHR 0xE2, CHR 0x80, CHR 0x81],
      [CHR 0xE2, CHR 0x80, CHR 0x82], [CHR 0xE2, CHR 0x80, CHR 0x83],
      [CHR 0xE2, CHR 0x80, CHR 0x84], [CHR 0xE2, CHR 0x80, CHR 0x85],
      [CHR 0xE2, CHR 0x80, CHR 0x86], [CHR 0xE2, CHR 0x80, CHR 0x87],
      [CHR 0xE2, CHR 0x80, CHR 0x88], [CHR 0xE2, CHR 0x80, CHR 0x89],
      [CHR 0xE2, CHR 0x80, CHR 0x8A], [CHR 0xE2, CHR 0x80, CHR 0xA8],
      [CHR 0xE2, CHR 0x80, CHR 0xA9], [CHR 0xE2, CHR 0x80, CHR 0xAF],
      [CHR 0xE2, CHR 0x81, CHR 0x9F], [CHR 0xE3, CHR 0x80, CHR 0x80]]"

definition leading_space :: "string \<Rightarrow> string option" where
  "leading_space s = find (\<lambda>w. take (length w) s = w) py_whitespace"

definition trailing_space :: "string \<Rightarrow> string option" where
  "trailing_space s = find (\<lambda>w. drop (length s - length w) s = w) py_whitespace"

function lstrip :: "string \<Rightarrow> string" where
  "lstrip s =
     (case leading_space s of
        None \<Rightarrow> s
      | Some w \<Rightarrow> if w = [] \<or> s = [] then s else lstrip (drop (length w) s))"
  by pat_completeness auto
termination
  by (relation "measure length") auto

function rstrip :: "string \<Rightarrow> string" where
  "rstrip s =
     (case trailing_space s of
        None \<Rightarrow> s
      | Some w \<Rightarrow> if w = [] \<or> s = [] then s else rstrip (take (length s - length w) s))"
  by pat_completeness auto
termination
  by (relation "measure length") auto

declare lstrip.simps [simp del] rstrip.simps [simp del]

definition str_strip :: "string \<Rightarrow> string" where
  "str_strip s = rstrip (lstrip s)"

text \<open>The characters of a string, each with its continuation bytes.\<close>

definition is_cont :: "char \<Rightarrow> bool" where
  "is_cont c = (0x80 \<le> (of_char c :: nat) \<and> (of_char c :: nat) < 0xC0)"

function utf8_chars :: "string \<Rightarrow> string list" where
  "utf8_chars [] = []"
| "utf8_chars (c # cs) = (c # takeWhile is_cont cs) # utf8_chars (dropWhile is_cont cs)"
  by pat_completeness auto
termination
  by (relation "measure length") (auto simp: length_dropWhile_le le_imp_less_Suc)

text \<open>\<^verbatim>\<open>sub in s\<close> for two strings.\<close>

definition is_substring :: "string \<Rightarrow> string \<Rightarrow> bool" where
  "is_substring sub s = list_ex (\<lambda>i. take (length sub) (drop i s) = sub) [0..<Suc (length s)]"

text \<open>\<^verbatim>\<open>str(n)\<close> for an integer.\<close>

function show_nat :: "nat \<Rightarrow> string" where
  "show_nat n =
     (if n < 10 then [char_of (48 + n)] else show_nat (n div 10) @ [char_of (48 + n mod 10)])"
  by pat_completeness auto
termination
  by (relation "measure id") auto

declare show_nat.simps [simp del]

definition show_int :: "int \<Rightarrow> string" where
  "show_int i = (if i < 0 then CHR ''-'' # show_nat (nat (- i)) else show_nat (nat i))"

text \<open>
  \<^verbatim>\<open>repr(v)\<close> and \<^verbatim>\<open>str(v)\<close>, which is also what an f-string inserts: a string stands for
  itself, every other value for its \<^verbatim>\<open>repr\<close>.
\<close>

fun join :: "string \<Rightarrow> string list \<Rightarrow> string" where
  "join sep [] = []"
| "join sep [x] = x"
| "join sep (x # y # ys) = x @ sep @ join sep (y # ys)"

fun py_repr :: "python \<Rightarrow> json \<Rightarrow> string" where
  "py_repr py JNull = ''None''"
| "py_repr py (JBool b) = (if b then ''True'' else ''False'')"
| "py_repr py (JInt i) = show_int i"
| "py_repr py (JFloat f) =
     (case f of PosInf \<Rightarrow> ''inf'' | NegInf \<Rightarrow> ''-inf'' | NaN \<Rightarrow> ''nan'' | _ \<Rightarrow> float_repr py f)"
| "py_repr py (JStr s) = str_repr py s"
| "py_repr py (JArr xs) = ''['' @ join '', '' (map (py_repr py) xs) @ '']''"
| "py_repr py (JObj kvs) =
     ''{'' @ join '', '' (map (\<lambda>(k, v). str_repr py k @ '': '' @ py_repr py v) kvs) @ ''}''"

definition py_str :: "python \<Rightarrow> json \<Rightarrow> string" where
  "py_str py v = (case v of JStr s \<Rightarrow> s | _ \<Rightarrow> py_repr py v)"

section \<open>The response extractor\<close>

text \<open>
  \<^verbatim>\<open>re.search(r'(\{[\s\S]*\}|\[[\s\S]*\])', text)\<close>: at the first position that starts a
  match, the text from a brace to the last closing brace after it, or else from a bracket to
  the last closing bracket after it. \<open>None\<close> when no position matches.
\<close>

definition through_last :: "char \<Rightarrow> string \<Rightarrow> string" where
  "through_last x cs = rev (dropWhile (\<lambda>y. y \<noteq> x) (rev cs))"

fun re_search :: "string \<Rightarrow> string option" where
  "re_search [] = None"
| "re_search (c # cs) =
     (if c = CHR ''{'' \<and> CHR ''}'' \<in> set cs then Some (c # through_last (CHR ''}'') cs)
      else if c = CHR ''['' \<and> CHR '']'' \<in> set cs then Some (c # through_last (CHR '']'') cs)
      else re_search cs)"

text \<open>
  \<^verbatim>\<open>extract_json(text)\<close>. The first \<^verbatim>\<open>try\<close> catches \<^verbatim>\<open>json.JSONDecodeError\<close> only, so any
  other exception of \<^verbatim>\<open>json.loads\<close> leaves the function; the second catches every
  \<^verbatim>\<open>Exception\<close>. The result \<open>JNull\<close> is the \<^verbatim>\<open>None\<close> of the last line, and also a parsed
  \<^verbatim>\<open>null\<close>.
\<close>

definition extract_json :: "python \<Rightarrow> string \<Rightarrow> exn + json" where
  "extract_json py text =
     (case json_loads py text of
        Inr v \<Rightarrow> Inr v
      | Inl e \<Rightarrow>
          if e \<noteq> JSONDecodeError then Inl e
          else
            (case re_search text of
               None \<Rightarrow> Inr JNull
             | Some m \<Rightarrow>
                 (case json_loads py m of
                    Inr v \<Rightarrow> Inr v
                  | Inl e' \<Rightarrow> Inr JNull)))"

text \<open>
  The cleaning that \<^verbatim>\<open>get_recommendations\<close> applies to the model's text before the
  extraction: \<^verbatim>\<open>raw_text.replace("```json", "").replace("```", "").strip()\<close>.
\<close>

definition fence :: string where
  "fence = [CHR 0x60, CHR 0x60, CHR 0x60]"

definition clean_text :: "string \<Rightarrow> string" where
  "clean_text raw_text = str_strip (str_replace fence [] (str_replace (fence @ ''json'') [] raw_text))"

section \<open>The remote completion client\<close>

text \<open>
  What the program does with a JSON value through Python's operators. Each raises what
  Python raises for a value of the wrong type.
\<close>

text \<open>\<^verbatim>\<open>key in v\<close> for a string \<open>key\<close>.\<close>

definition py_contains :: "json \<Rightarrow> string \<Rightarrow> exn + bool" where
  "py_contains v key =
     (case v of
        JObj d \<Rightarrow> Inr (map_of d key \<noteq> None)
      | JArr xs \<Rightarrow> Inr (list_ex (\<lambda>x. x = JStr key) xs)
      | JStr s \<Rightarrow> Inr (is_substring key s)
      | _ \<Rightarrow> Inl TypeError)"

text \<open>\<^verbatim>\<open>v[key]\<close> for a string \<open>key\<close>, and \<^verbatim>\<open>v[0]\<close>.\<close>

definition py_getitem :: "json \<Rightarrow> string \<Rightarrow> exn + json" where
  "py_getitem v key =
     (case v of
        JObj d \<Rightarrow> (case map_of d key of None \<Rightarrow> Inl KeyError | Some x \<Rightarrow> Inr x)
      | _ \<Rightarrow> Inl TypeError)"

definition py_first :: "json \<Rightarrow> exn + json" where
  "py_first v =
     (case v of
        JArr xs \<Rightarrow> (case xs of [] \<Rightarrow> Inl IndexError | x # _ \<Rightarrow> Inr x)
      | JStr s \<Rightarrow> (case utf8_chars s of [] \<Rightarrow> Inl IndexError | c # _ \<Rightarrow> Inr (JStr c))
      | JObj d \<Rightarrow> Inl KeyError
      | _ \<Rightarrow> Inl TypeError)"

text \<open>\<^verbatim>\<open>v.get(key, default)\<close>: only a dictionary has the method.\<close>

definition py_get :: "json \<Rightarrow> string \<Rightarrow> json \<Rightarrow> exn + json" where
  "py_get v key dflt = (case v of JObj d \<Rightarrow> Inr (dict_get d key dflt) | _ \<Rightarrow> Inl AttributeError)"

text \<open>\<^verbatim>\<open>for x in v\<close>: the items of a list, the keys of a dictionary, the characters of a string.\<close>

definition py_iter :: "json \<Rightarrow> exn + json list" where
  "py_iter v =
     (case v of
        JArr xs \<Rightarrow> Inr xs
      | JObj d \<Rightarrow> Inr (map (\<lambda>kv. JStr (fst kv)) d)
      | JStr s \<Rightarrow> Inr (map JStr (utf8_chars s))
      | _ \<Rightarrow> Inl TypeError)"

text \<open>
  An HTTP response: its status and its text. \<^verbatim>\<open>response.json()\<close> decodes the text;
  \<^verbatim>\<open>raise_for_status\<close> raises for a status from 400 to 599.
\<close>

record response =
  status_code :: nat
  body :: string

definition raise_for_status :: "response \<Rightarrow> exn + unit" where
  "raise_for_status r =
     (if 400 \<le> status_code r \<and> status_code r < 600 then Inl (HTTPError (status_code r))
      else Inr ())"

text \<open>
  What the user sees and what the program waits for, in the order it happens. The messages
  of \<^verbatim>\<open>st.error\<close> are, in the order of the constructors: "API rate limit exceeded (429
  error)", "Communication error: e", "Error generating HTML: e", "The AI could not generate
  connections (edges)", "Failed to generate visualization." and "No response from AI.".
  \<open>Post\<close> is one call of \<^verbatim>\<open>requests.post\<close>, \<open>Sleep n\<close> is \<^verbatim>\<open>time.sleep(n)\<close>,
  \<open>ComponentsHtml\<close> is \<^verbatim>\<open>components.html\<close> and \<open>StSuccess\<close> is \<^verbatim>\<open>st.success\<close>.
\<close>

datatype message =
    RateLimitExceeded
  | CommunicationError exn
  | HtmlGenerationError exn
  | NoConnections
  | VisualizationFailed
  | NoResponse

datatype event =
    Post
  | Sleep nat
  | StError message
  | ComponentsHtml string
  | StSuccess

definition max_retries :: nat where
  "max_retries = 3"

definition retry_delays :: "nat list" where
  "retry_delays = [2, 5, 10]"

text \<open>\<^verbatim>\<open>result['candidates'][0]['content']['parts'][0]['text']\<close>\<close>

definition candidate_text :: "json \<Rightarrow> exn + json" where
  "candidate_text result =
     (case py_getitem result ''candidates'' of Inl e \<Rightarrow> Inl e | Inr cands \<Rightarrow>
      case py_first cands of Inl e \<Rightarrow> Inl e | Inr cand \<Rightarrow>
      case py_getitem cand ''content'' of Inl e \<Rightarrow> Inl e | Inr content \<Rightarrow>
      case py_getitem content ''parts'' of Inl e \<Rightarrow> Inl e | Inr parts \<Rightarrow>
      case py_first parts of Inl e \<Rightarrow> Inl e | Inr part \<Rightarrow>
      py_getitem part ''text'')"

text \<open>
  The body of the \<^verbatim>\<open>try\<close> once \<^verbatim>\<open>requests.post\<close> has returned, in attempt number
  \<open>attempt\<close>: the events of this attempt, and the value returned (\<open>None\<close> for
  \<^verbatim>\<open>continue\<close>), or the exception raised. \<^verbatim>\<open>str.replace\<close> exists on a string only.
\<close>

definition handle_response :: "python \<Rightarrow> nat \<Rightarrow> response \<Rightarrow> exn + event list \<times> json option" where
  "handle_response py attempt resp =
     (if status_code resp = 429 then Inr ([StError RateLimitExceeded], Some JNull)
      else if status_code resp = 503 \<and> attempt < max_retries - 1
      then Inr ([Sleep (retry_delays ! attempt)], None)
      else
        case raise_for_status resp of Inl e \<Rightarrow> Inl e | Inr u \<Rightarrow>
        case json_loads py (body resp) of Inl e \<Rightarrow> Inl e | Inr result \<Rightarrow>
        case py_contains result ''candidates'' of Inl e \<Rightarrow> Inl e | Inr has \<Rightarrow>
        if \<not> has then Inr ([], Some JNull)
        else
          case py_getitem result ''candidates'' of Inl e \<Rightarrow> Inl e | Inr cands \<Rightarrow>
          if \<not> truthy cands then Inr ([], Some JNull)
          else
            case candidate_text result of Inl e \<Rightarrow> Inl e | Inr raw \<Rightarrow>
            (case raw of
               JStr raw_text \<Rightarrow>
                 (case extract_json py (clean_text raw_text) of
                    Inl e \<Rightarrow> Inl e
                  | Inr data \<Rightarrow> Inr ([], Some data))
             | _ \<Rightarrow> Inl AttributeError))"

text \<open>
  The loop \<^verbatim>\<open>for attempt in range(max_retries)\<close>. \<open>post k\<close> is what the \<open>k\<close>-th call of
  \<^verbatim>\<open>requests.post\<close> gives: a response, or the exception it raises. The handler
  \<^verbatim>\<open>except Exception\<close> sleeps and lets the loop go on, or reports and returns on the last
  attempt. The result is the value returned and the events in order.
\<close>

fun attempts :: "python \<Rightarrow> (nat \<Rightarrow> exn + response) \<Rightarrow> nat list \<Rightarrow> json \<times> event list" where
  "attempts py post [] = (JNull, [])"
| "attempts py post (attempt # rest) =
     (case (case post attempt of
              Inl e \<Rightarrow> Inl e
            | Inr resp \<Rightarrow> handle_response py attempt resp) of
        Inr (evs, Some v) \<Rightarrow> (v, Post # evs)
      | Inr (evs, None) \<Rightarrow>
          (case attempts py post rest of (v, evs') \<Rightarrow> (v, Post # evs @ evs'))
      | Inl e \<Rightarrow>
          if attempt < max_retries - 1 then
            (case attempts py post rest of
               (v, evs') \<Rightarrow> (v, Post # Sleep (retry_delays ! attempt) # evs'))
          else (JNull, [Post, StError (CommunicationError e)]))"

text \<open>
  \<^verbatim>\<open>get_recommendations(books)\<close>, the function that \<^verbatim>\<open>st.cache_data\<close> wraps. The prompt
  and the URL reach the program only through \<open>post\<close>.
\<close>

definition get_recommendations :: "python \<Rightarrow> (nat \<Rightarrow> exn + response) \<Rightarrow> json \<times> event list" where
  "get_recommendations py post = attempts py post [0..<max_retries]"

section \<open>The graph renderer\<close>

subsection \<open>The network of \<^verbatim>\<open>pyvis\<close>\<close>

text \<open>
  \<^verbatim>\<open>pyvis.network.Network\<close> is a library class. A network is undirected unless asked
  otherwise, and keeps the list of the identifiers of its nodes. \<^verbatim>\<open>add_node\<close> asserts that
  the identifier is a \<^verbatim>\<open>str\<close> or an \<^verbatim>\<open>int\<close> (a \<^verbatim>\<open>bool\<close> is an \<^verbatim>\<open>int\<close>), takes the identifier
  for a label that is false, and ignores an identifier that is in the list already.
  \<^verbatim>\<open>add_edge\<close> first asserts of each end that it is in that list
  (\<^verbatim>\<open>assert source in self.get_nodes(), "non existent node ..."\<close>, and the same for the
  target): an end that equals no identifier, of whatever type, fails with
  \<^verbatim>\<open>AssertionError\<close>. It then ignores an edge between two nodes that already have one, in
  either direction, and appends any other. \<open>has_node\<close> is the membership test.
\<close>

record node =
  n_id :: json
  n_label :: json
  n_title :: string
  n_color :: string
  n_size :: nat

record edge =
  e_from :: json
  e_to :: json
  e_label :: json
  e_title :: json

record network =
  nodes :: "node list"
  edges :: "edge list"

definition empty_network :: network where
  "empty_network = \<lparr>nodes = [], edges = []\<rparr>"

definition has_node :: "network \<Rightarrow> json \<Rightarrow> bool" where
  "has_node net i = list_ex (\<lambda>n. key_eq i (n_id n)) (nodes net)"

definition is_str_or_int :: "json \<Rightarrow> bool" where
  "is_str_or_int v = (case v of JStr s \<Rightarrow> True | JInt i \<Rightarrow> True | JBool b \<Rightarrow> True | _ \<Rightarrow> False)"

definition add_node :: "network \<Rightarrow> node \<Rightarrow> exn + network" where
  "add_node net n =
     (if \<not> is_str_or_int (n_id n) then Inl AssertionError
      else if has_node net (n_id n) then Inr net
      else Inr (net\<lparr>nodes := nodes net @
                  [n\<lparr>n_label := (if truthy (n_label n) then n_label n else n_id n)\<rparr>]\<rparr>))"

definition connects :: "edge \<Rightarrow> json \<Rightarrow> json \<Rightarrow> bool" where
  "connects e source to =
     ((key_eq source (e_to e) \<and> key_eq to (e_from e)) \<or>
      (key_eq source (e_from e) \<and> key_eq to (e_to e)))"

definition add_edge :: "network \<Rightarrow> edge \<Rightarrow> exn + network" where
  "add_edge net e =
     (if \<not> has_node net (e_from e) then Inl AssertionError
      else if \<not> has_node net (e_to e) then Inl AssertionError
      else if list_ex (\<lambda>e'. connects e' (e_from e) (e_to e)) (edges net) then Inr net
      else Inr (net\<lparr>edges := edges net @ [e]\<rparr>))"

subsection \<open>Tooltips\<close>

text \<open>The symbols of the tooltip, in UTF-8.\<close>

definition red_circle :: string where
  "red_circle = [CHR 0xF0, CHR 0x9F, CHR 0x94, CHR 0xB4]"

definition yellow_circle :: string where
  "yellow_circle = [CHR 0xF0, CHR 0x9F, CHR 0x9F, CHR 0xA1]"

definition blue_circle :: string where
  "blue_circle = [CHR 0xF0, CHR 0x9F, CHR 0x94, CHR 0xB5]"

definition books_sign :: string where
  "books_sign = [CHR 0xF0, CHR 0x9F, CHR 0x93, CHR 0x9A]"

definition writing_hand :: string where
  "writing_hand = [CHR 0xE2, CHR 0x9C, CHR 0x8D, CHR 0xEF, CHR 0xB8, CHR 0x8F]"

definition light_bulb :: string where
  "light_bulb = [CHR 0xF0, CHR 0x9F, CHR 0x92, CHR 0xA1]"

definition open_book :: string where
  "open_book = [CHR 0xF0, CHR 0x9F, CHR 0x93, CHR 0x96]"

definition badge_of :: "json \<Rightarrow> string" where
  "badge_of grp =
     (if grp = JStr ''Seed'' then red_circle @ '' Your Input Book''
      else if grp = JStr ''Level2'' then yellow_circle @ '' Deep Recommendation''
      else blue_circle @ '' Recommended Book'')"

text \<open>\<^verbatim>\<open>create_tooltip_text(node_data)\<close>: plain text, the five parts in a fixed order.\<close>

definition create_tooltip_text :: "python \<Rightarrow> (string \<times> json) list \<Rightarrow> string" where
  "create_tooltip_text py node_data =
     (let book_title = py_or (dict_get node_data ''title'' JNull)
                         (py_or (dict_get node_data ''id'' JNull) (JStr ''Untitled''));
          author = dict_get node_data ''author'' (JStr ''Unknown Author'');
          reason = dict_get node_data ''reason'' (JStr ''No recommendation reason provided.'');
          summary = dict_get node_data ''summary'' (JStr ''No summary available.'');
          grp = dict_get node_data ''group'' (JStr ''Recommended'')
      in badge_of grp @ ''\<newline>\<newline>'' @ books_sign @ '' '' @ py_str py book_title @
         ''\<newline>'' @ writing_hand @ '' '' @ py_str py author @
         ''\<newline>\<newline>'' @ light_bulb @ '' Why this book:\<newline>'' @ py_str py reason @
         ''\<newline>\<newline>'' @ open_book @ '' Summary:\<newline>'' @ py_str py summary)"

subsection \<open>\<^verbatim>\<open>visualize_network\<close>\<close>

text \<open>
  The body of the loop over the nodes, up to the call of \<^verbatim>\<open>net.add_node\<close>: the node the
  network is asked to add. A node without a true \<^verbatim>\<open>id\<close> gets its label as \<^verbatim>\<open>id\<close>, written
  back into the entry before the tooltip is made.
\<close>

definition group_color :: "json \<Rightarrow> string" where
  "group_color grp =
     (if grp = JStr ''Seed'' then ''#FF6B6B''
      else if grp = JStr ''Level2'' then ''#FFD93D''
      else ''#4ECDC4'')"

definition group_size :: "json \<Rightarrow> nat" where
  "group_size grp =
     (if grp = JStr ''Seed'' then 50
      else if grp = JStr ''Level2'' then 25
      else 35)"

definition node_of :: "python \<Rightarrow> (string \<times> json) list \<Rightarrow> node" where
  "node_of py entry =
     (let node_id = dict_get entry ''id'' JNull;
          node_label = py_or (dict_get entry ''title'' JNull) (JStr (py_str py node_id));
          node_id' = (if \<not> truthy node_id then node_label else node_id);
          entry' = (if \<not> truthy node_id then dict_set entry ''id'' node_id' else entry);
          grp = dict_get entry' ''group'' (JStr ''Recommended'')
      in \<lparr>n_id = node_id', n_label = node_label, n_title = create_tooltip_text py entry',
          n_color = group_color grp, n_size = group_size grp\<rparr>)"

fun add_nodes :: "python \<Rightarrow> network \<Rightarrow> json list \<Rightarrow> exn + network" where
  "add_nodes py net [] = Inr net"
| "add_nodes py net (entry # rest) =
     (case entry of
        JObj d \<Rightarrow>
          (case add_node net (node_of py d) of
             Inl e \<Rightarrow> Inl e
           | Inr net' \<Rightarrow> add_nodes py net' rest)
      | _ \<Rightarrow> Inl AttributeError)"

text \<open>
  The loop over the edges: an entry whose \<^verbatim>\<open>source\<close> or \<^verbatim>\<open>target\<close> is missing or false is
  passed over; every other entry goes to \<^verbatim>\<open>net.add_edge\<close> with its label, \<^verbatim>\<open>'Related'\<close>
  when it has none, as label and as title. The loop stands in no \<^verbatim>\<open>try\<close>: an exception of
  \<^verbatim>\<open>net.add_edge\<close> ends it and the function.
\<close>

definition wanted_edge :: "(string \<times> json) list \<Rightarrow> bool" where
  "wanted_edge entry =
     (truthy (dict_get entry ''source'' JNull) \<and> truthy (dict_get entry ''target'' JNull))"

definition edge_of :: "(string \<times> json) list \<Rightarrow> edge" where
  "edge_of entry =
     (let label = dict_get entry ''label'' (JStr ''Related'')
      in \<lparr>e_from = dict_get entry ''source'' JNull, e_to = dict_get entry ''target'' JNull,
          e_label = label, e_title = label\<rparr>)"

fun add_edges :: "network \<Rightarrow> json list \<Rightarrow> exn + network" where
  "add_edges net [] = Inr net"
| "add_edges net (entry # rest) =
     (case entry of
        JObj d \<Rightarrow>
          if wanted_edge d then
            (case add_edge net (edge_of d) of
               Inl e \<Rightarrow> Inl e
             | Inr net' \<Rightarrow> add_edges net' rest)
          else add_edges net rest
      | _ \<Rightarrow> Inl AttributeError)"

text \<open>
  The function up to the last loop: a bare list is taken as the nodes of a graph without
  edges; a value that is no dictionary, or has no key \<^verbatim>\<open>nodes\<close>, gives \<^verbatim>\<open>None\<close>. The options
  of the layout do not depend on the data and are left out.
\<close>

definition build_network :: "python \<Rightarrow> json \<Rightarrow> exn + network option" where
  "build_network py data =
     (case (case data of JArr xs \<Rightarrow> JObj [(''nodes'', JArr xs), (''edges'', JArr [])] | _ \<Rightarrow> data) of
        JObj d \<Rightarrow>
          if map_of d ''nodes'' = None then Inr None
          else
            (case py_iter (dict_get d ''nodes'' (JArr [])) of Inl e \<Rightarrow> Inl e | Inr ns \<Rightarrow>
             case add_nodes py empty_network ns of Inl e \<Rightarrow> Inl e | Inr net \<Rightarrow>
             case py_iter (dict_get d ''edges'' (JArr [])) of Inl e \<Rightarrow> Inl e | Inr es \<Rightarrow>
             case add_edges net es of Inl e \<Rightarrow> Inl e | Inr net' \<Rightarrow> Inr (Some net'))
      | _ \<Rightarrow> Inr None)"

definition custom_style :: string where
  "custom_style =
      ''\<newline>'' @
      ''        <style>\<newline>'' @
      ''        @import url('' @ [CHR 0x27] @ ''https://fonts.googleapis.com/css2?family=Playfair+Display:wght@400;700&family=Source+Sans+3:wght@400;500;600;700&display=swap'' @ [CHR 0x27] @ '');\<newline>'' @
      ''\<newline>'' @
      ''        div.vis-tooltip {\<newline>'' @
      ''            font-family: '' @ [CHR 0x27] @ ''Source Sans 3'' @ [CHR 0x27] @ '', sans-serif !important;\<newline>'' @
      ''            background: linear-gradient(135deg, #ffffff 0%, #f8f9fa 100%) !important;\<newline>'' @
      ''            color: #000000 !important;\<newline>'' @
      ''            border: 2px solid #e0e0e0 !important;\<newline>'' @
      ''            border-radius: 16px !important;\<newline>'' @
      ''            padding: 20px !important;\<newline>'' @
      ''            box-shadow: 0 10px 40px rgba(0,0,0,0.15) !important;\<newline>'' @
      ''            max-width: 380px !important;\<newline>'' @
      ''            font-size: 14px !important;\<newline>'' @
      ''            line-height: 1.7 !important;\<newline>'' @
      ''            white-space: pre-wrap !important;\<newline>'' @
      ''            word-wrap: break-word !important;\<newline>'' @
      ''            z-index: 999999 !important;\<newline>'' @
      ''            pointer-events: none !important;\<newline>'' @
      ''        }\<newline>'' @
      ''\<newline>'' @
      ''        canvas {\<newline>'' @
      ''            outline: none !important;\<newline>'' @
      ''        }\<newline>'' @
      ''        </style>\<newline>'' @
      ''        ''"

text \<open>
  \<^verbatim>\<open>visualize_network(data)\<close>. \<open>save\<close> is \<^verbatim>\<open>net.save_graph\<close> followed by the reading of the
  file: the document, or the exception of either step, which the \<^verbatim>\<open>try\<close> around them turns
  into a message and the result \<^verbatim>\<open>None\<close>. The loops stand outside that \<^verbatim>\<open>try\<close>.
\<close>

definition visualize_network ::
  "python \<Rightarrow> (network \<Rightarrow> exn + string) \<Rightarrow> json \<Rightarrow> exn + string option \<times> event list" where
  "visualize_network py save data =
     (case build_network py data of
        Inl e \<Rightarrow> Inl e
      | Inr None \<Rightarrow> Inr (None, [])
      | Inr (Some net) \<Rightarrow>
          (case save net of
             Inl e \<Rightarrow> Inr (None, [StError (HtmlGenerationError e)])
           | Inr html_content \<Rightarrow>
               Inr (Some (str_replace ''</head>'' (custom_style @ ''</head>'') html_content), [])))"

section \<open>The display of the result\<close>

text \<open>
  The last block of the program, after \<^verbatim>\<open>get_recommendations\<close> has returned \<open>data\<close>. The
  renderer is a parameter \<open>vis\<close>, which the program sets to \<^verbatim>\<open>visualize_network\<close>; nothing
  in the block catches an exception. The check of the API key at the start of the script,
  which stops the run before any request, lies before this block. \<open>show_html\<close> is the inner \<^verbatim>\<open>if final_html:\<close>, which
  shows the document, or the failure message for \<^verbatim>\<open>None\<close> and for an empty document.
\<close>

definition show_html :: "string option \<Rightarrow> event list" where
  "show_html final_html =
     (case final_html of
        None \<Rightarrow> [StError VisualizationFailed]
      | Some h \<Rightarrow> if h \<noteq> [] then [ComponentsHtml h, StSuccess] else [StError VisualizationFailed])"

definition display_results ::
  "(json \<Rightarrow> exn + string option \<times> event list) \<Rightarrow> json \<Rightarrow> exn + event list" where
  "display_results vis data =
     (if truthy data then
        (case py_get data ''edges'' JNull of
           Inl e \<Rightarrow> Inl e
         | Inr es \<Rightarrow>
             if \<not> truthy es then Inr [StError NoConnections]
             else
               (case vis data of
                  Inl e \<Rightarrow> Inl e
                | Inr (final_html, evs) \<Rightarrow> Inr (evs @ show_html final_html)))
      else Inr [StError NoResponse])"

text \<open>One analysis: the request, then the display, with the events of both.\<close>

definition analysis ::
  "python \<Rightarrow> (nat \<Rightarrow> exn + response) \<Rightarrow> (network \<Rightarrow> exn + string) \<Rightarrow> exn + event list" where
  "analysis py post save =
     (case get_recommendations py post of
        (data, evs) \<Rightarrow>
          (case display_results (visualize_network py save) data of
             Inl e \<Rightarrow> Inl e
           | Inr evs' \<Rightarrow> Inr (evs @ evs')))"

section \<open>Values for the examples\<close>

text \<open>
  An interpreter for the examples: CPython 3.11 with its default limits, a recursion limit
  of 1000 and at most 4300 digits in an integer literal. The frames in use at the call count
  against the recursion limit: when \<^verbatim>\<open>extract_json\<close> is called from a function of a script
  that the interpreter runs directly, \<^verbatim>\<open>json.loads\<close> opens 993 nested containers and raises
  at the next; from deeper frames it opens fewer. The three functions are left open.
\<close>

definition cpython :: "(string \<Rightarrow> pyfloat) \<Rightarrow> (pyfloat \<Rightarrow> string) \<Rightarrow> (string \<Rightarrow> string) \<Rightarrow> python" where
  "cpython f g h =
     \<lparr>recursion_limit = 993, int_max_str_digits = Some 4300, float_of = f, float_repr = g,
      str_repr = h\<rparr>"

text \<open>
  The node that the entry \<^verbatim>\<open>{"id": "A"}\<close> becomes: the identifier as label, the colour and
  size of a recommended book, and a tooltip with the three default texts.
\<close>

definition node_A :: node where
  "node_A =
     \<lparr>n_id = JStr ''A'', n_label = JStr ''A'',
      n_title = blue_circle @ '' Recommended Book\<newline>\<newline>'' @ books_sign @ '' A\<newline>'' @
                writing_hand @ '' Unknown Author\<newline>\<newline>'' @
                light_bulb @ '' Why this book:\<newline>No recommendation reason provided.\<newline>\<newline>'' @
                open_book @ '' Summary:\<newline>No summary available.'',
      n_color = ''#4ECDC4'', n_size = 35\<rparr>"

text \<open>
  An answer of the service whose candidate text is the bare list \<^verbatim>\<open>[{"id":"A"}]\<close>.
\<close>

definition bare_list_reply :: string where
  "bare_list_reply =
     ''{\"candidates\":[{\"content\":{\"parts\":[{\"text\":\"[{'' @ [CHR 0x5C] @ ''\"id'' @
     [CHR 0x5C] @ ''\":'' @ [CHR 0x5C] @ ''\"A'' @ [CHR 0x5C] @ ''\"}]\"}]}}]}''"

section \<open>Properties of the model\<close>

subsection \<open>The decoder reads at least one character\<close>

declare scan_once.simps [simp del] parse_array.simps [simp del] parse_object.simps [simp del]

lemma scan_once_length:
  "scan_once py d s = Inr (v, r) \<Longrightarrow> length r < length s"
  "parse_array py d acc s = Inr (v, r) \<Longrightarrow> length r < length s"
  "parse_object py d acc' s = Inr (v, r) \<Longrightarrow> length r < length s"
proof (induction py d s and py d acc s and py d acc' s arbitrary: v r and v r and v r
    rule: scan_once_parse_array_parse_object.induct)
  case (1 py d s)
  note prem = "1.prems" [unfolded scan_once.simps [of py d s]]
  show ?case
  proof (cases s)
    case Nil
    with prem show ?thesis by simp
  next
    case (Cons c cs)
    consider (str) "c = CHR 0x22"
      | (obj) "c \<noteq> CHR 0x22" "c = CHR ''{''"
      | (arr) "c \<noteq> CHR 0x22" "c \<noteq> CHR ''{''" "c = CHR ''[''"
      | (other) "c \<noteq> CHR 0x22" "c \<noteq> CHR ''{''" "c \<noteq> CHR ''[''"
      by blast
    then show ?thesis
    proof cases
      case str
      with prem Cons obtain k where "scanstring [] cs = Inr (k, r)"
        by (auto split: sum.splits)
      from scanstring_length [OF this] Cons show ?thesis by simp
    next
      case obj
      with prem Cons have nl: "\<not> recursion_limit py \<le> d"
        by (auto split: if_splits)
      show ?thesis
      proof (cases "skip_ws cs")
        case Nil
        with prem Cons obj nl show ?thesis by simp
      next
        case sk: (Cons c1 r1)
        show ?thesis
        proof (cases "c1 = CHR ''}''")
          case True
          with prem Cons obj nl sk have "r = r1" by simp
          with skip_ws_Cons_length [OF sk] Cons show ?thesis by simp
        next
          case False
          with prem Cons obj nl sk have "parse_object py (Suc d) [] (c1 # r1) = Inr (v, r)"
            by simp
          from "1.IH"(1) [OF Cons obj nl sk False this] skip_ws_Cons_length [OF sk] Cons
          show ?thesis by simp
        qed
      qed
    next
      case arr
      with prem Cons have nl: "\<not> recursion_limit py \<le> d"
        by (auto split: if_splits)
      show ?thesis
      proof (cases "skip_ws cs")
        case Nil
        with prem Cons arr nl show ?thesis by simp
      next
        case sk: (Cons c1 r1)
        show ?thesis
        proof (cases "c1 = CHR '']''")
          case True
          with prem Cons arr nl sk have "r = r1" by simp
          with skip_ws_Cons_length [OF sk] Cons show ?thesis by simp
        next
          case False
          with prem Cons arr nl sk have "parse_array py (Suc d) [] (c1 # r1) = Inr (v, r)"
            by simp
          from "1.IH"(2) [OF Cons arr nl sk False this] skip_ws_Cons_length [OF sk] Cons
          show ?thesis by simp
        qed
      qed
    next
      case other
      with prem Cons have
        "(\<exists>n>0. r = drop n s) \<or> match_number py s = Inr (v, r)"
        by (auto split: if_splits)
      then show ?thesis
      proof
        assume "\<exists>n>0. r = drop n s"
        with Cons show ?thesis by auto
      next
        assume "match_number py s = Inr (v, r)"
        then show ?thesis by (rule match_number_length)
      qed
    qed
  qed
next
  case (2 py d acc s)
  note prem = "2.prems" [unfolded parse_array.simps [of py d acc s]]
  from prem obtain v' r' where sc: "scan_once py d s = Inr (v', r')"
    by (auto split: sum.splits)
  with prem have len: "\<not> length s \<le> length r'"
    by (auto split: if_splits)
  show ?case
  proof (cases "skip_ws r'")
    case Nil
    with prem sc len show ?thesis by simp
  next
    case sk: (Cons c r1)
    show ?thesis
    proof (cases "c = CHR '']''")
      case True
      with prem sc len sk have "r = r1" by simp
      with skip_ws_Cons_length [OF sk] len show ?thesis by simp
    next
      case nb: False
      show ?thesis
      proof (cases "c = CHR '',''")
        case True
        with prem sc len sk nb
        have "parse_array py d (acc @ [v']) (skip_ws r1) = Inr (v, r)" by simp
        from "2.IH"(2) [OF sc refl len sk nb True this]
          skip_ws_length [of r1] skip_ws_Cons_length [OF sk] len
        show ?thesis by simp
      next
        case False
        with prem sc len sk nb show ?thesis by simp
      qed
    qed
  qed
next
  case (3 py d acc s)
  note prem = "3.prems" [unfolded parse_object.simps [of py d acc s]]
  from prem obtain q r0 where s: "s = q # r0" and q: "\<not> q \<noteq> CHR 0x22"
    by (cases s) (auto split: if_splits)
  from prem s q obtain key r1 where ss: "scanstring [] r0 = Inr (key, r1)"
    by (auto split: sum.splits)
  from prem s q ss obtain c r2 where sk1: "skip_ws r1 = c # r2" and c: "\<not> c \<noteq> CHR '':''"
    by (cases "skip_ws r1") (auto split: if_splits)
  from prem s q ss sk1 c obtain v' r3 where sc: "scan_once py d (skip_ws r2) = Inr (v', r3)"
    by (auto split: sum.splits)
  with prem s q ss sk1 c have len: "\<not> length (skip_ws r2) \<le> length r3"
    by (auto split: if_splits)
  have bound: "length r3 < length s"
    using len skip_ws_length [of r2] skip_ws_Cons_length [OF sk1] scanstring_length [OF ss] s
    by simp
  show ?case
  proof (cases "skip_ws r3")
    case Nil
    with prem s q ss sk1 c sc len show ?thesis by simp
  next
    case sk: (Cons c' r4)
    show ?thesis
    proof (cases "c' = CHR ''}''")
      case True
      with prem s q ss sk1 c sc len sk have "r = r4" by simp
      with skip_ws_Cons_length [OF sk] bound show ?thesis by simp
    next
      case nb: False
      show ?thesis
      proof (cases "c' = CHR '',''")
        case True
        with prem s q ss sk1 c sc len sk nb
        have "parse_object py d (dict_set acc key v') (skip_ws r4) = Inr (v, r)" by simp
        from "3.IH"(2) [OF s q ss refl sk1 c sc refl len sk nb True this]
          skip_ws_length [of r4] skip_ws_Cons_length [OF sk] bound
        show ?thesis by simp
      next
        case False
        with prem s q ss sk1 c sc len sk nb show ?thesis by simp
      qed
    qed
  qed
qed

text \<open>
  So the guards are immaterial: the loops of \<^verbatim>\<open>JSONArray\<close> and \<^verbatim>\<open>JSONObject\<close> are the
  equations without them.
\<close>

lemma parse_array_unguarded:
  "parse_array py d acc s =
     (case scan_once py d s of
        Inl e \<Rightarrow> Inl e
      | Inr (v, r) \<Rightarrow>
          (case skip_ws r of
             [] \<Rightarrow> Inl JSONDecodeError
           | c # r1 \<Rightarrow>
               if c = CHR '']'' then Inr (JArr (acc @ [v]), r1)
               else if c = CHR '','' then parse_array py d (acc @ [v]) (skip_ws r1)
               else Inl JSONDecodeError))"
proof (cases "scan_once py d s")
  case (Inl e)
  then show ?thesis by (simp add: parse_array.simps [of py d acc s])
next
  case (Inr p)
  obtain v r where "p = (v, r)" by (cases p)
  with Inr scan_once_length(1) [of py d s v r] show ?thesis
    by (simp add: parse_array.simps [of py d acc s])
qed

lemma parse_object_value_unguarded:
  assumes "scan_once py d (skip_ws r2) = Inr (v, r3)"
  shows "\<not> length (skip_ws r2) \<le> length r3"
  using scan_once_length(1) [OF assms] by simp

text \<open>For the evaluation of the decoder on a given text.\<close>

lemmas scan_simps = scan_once.simps parse_array.simps parse_object.simps

lemma skip_ws_Nil [simp]: "skip_ws [] = []"
  by (simp add: skip_ws_def)

lemma skip_ws_Cons [simp]: "skip_ws (c # cs) = (if is_json_ws c then skip_ws cs else c # cs)"
  by (simp add: skip_ws_def)

subsection \<open>Dictionaries\<close>

lemma map_of_dict_set: "map_of (dict_set d k v) = (map_of d)(k \<mapsto> v)"
  by (induction d) (auto simp: fun_eq_iff)

lemma dict_get_dict_set:
  "dict_get (dict_set d k v) k' dflt = (if k' = k then v else dict_get d k' dflt)"
  by (simp add: dict_get_def map_of_dict_set)

lemma dict_get_append_other:
  "k' \<noteq> k \<Longrightarrow> dict_get (d @ [(k, v)]) k' dflt = dict_get d k' dflt"
  by (simp add: dict_get_def map_add_def split: option.splits)

lemma dict_get_append_missing:
  "map_of d k = None \<Longrightarrow> dict_get (d @ [(k, v)]) k dflt = v"
  by (simp add: dict_get_def map_add_def)

lemma dict_get_missing: "map_of d k = None \<Longrightarrow> dict_get d k dflt = dflt"
  by (simp add: dict_get_def)

subsection \<open>Nodes\<close>

lemmas node_of_unfold = node_of_def Let_def dict_get_dict_set dict_get_append_other
  dict_get_append_missing dict_get_missing create_tooltip_text_def

lemma node_of_author_default:
  "map_of entry ''author'' = None \<Longrightarrow>
   node_of py entry = node_of py (entry @ [(''author'', JStr ''Unknown Author'')])"
  by (simp add: node_of_unfold)

lemma node_of_reason_default:
  "map_of entry ''reason'' = None \<Longrightarrow>
   node_of py entry =
   node_of py (entry @ [(''reason'', JStr ''No recommendation reason provided.'')])"
  by (simp add: node_of_unfold)

lemma node_of_summary_default:
  "map_of entry ''summary'' = None \<Longrightarrow>
   node_of py entry = node_of py (entry @ [(''summary'', JStr ''No summary available.'')])"
  by (simp add: node_of_unfold)

lemma node_of_group_default:
  "dict_get entry ''group'' (JStr ''Recommended'') \<noteq> JStr ''Seed'' \<Longrightarrow>
   dict_get entry ''group'' (JStr ''Recommended'') \<noteq> JStr ''Level2'' \<Longrightarrow>
   node_of py entry = node_of py (dict_set entry ''group'' (JStr ''Recommended'')) \<and>
   n_color (node_of py entry) = ''#4ECDC4'' \<and> n_size (node_of py entry) = 35"
  by (simp add: node_of_def Let_def dict_get_dict_set create_tooltip_text_def badge_of_def
      group_color_def group_size_def)

lemma node_of_A: "node_of py [(''id'', JStr ''A'')] = node_A"
  by (simp add: node_of_def Let_def node_A_def create_tooltip_text_def dict_get_def py_or_def
      py_str_def badge_of_def group_color_def group_size_def)

lemma node_A_id: "n_id node_A = JStr ''A''"
  by (simp add: node_A_def)

lemma add_nodes_A: "add_nodes py empty_network [JObj [(''id'', JStr ''A'')]] =
    Inr \<lparr>nodes = [node_A], edges = []\<rparr>"
  by (simp add: node_of_A add_node_def empty_network_def has_node_def)
     (simp add: node_A_def is_str_or_int_def)

lemma add_node_edges: "add_node net n = Inr net' \<Longrightarrow> edges net' = edges net"
  by (auto simp: add_node_def split: if_splits)

lemma add_nodes_edges: "add_nodes py net xs = Inr net' \<Longrightarrow> edges net' = edges net"
proof (induction xs arbitrary: net)
  case Nil
  then show ?case by simp
next
  case (Cons x xs)
  then show ?case
    by (auto split: json.splits sum.splits dest: add_node_edges)
qed

lemma add_node_has_node:
  "add_node net n = Inr net' \<Longrightarrow> has_node net' i \<Longrightarrow> has_node net i \<or> key_eq i (n_id n)"
  by (auto simp: add_node_def has_node_def split: if_splits)

lemma add_nodes_has_node:
  "add_nodes py net xs = Inr net' \<Longrightarrow> has_node net' i \<Longrightarrow>
   has_node net i \<or> (\<exists>d. JObj d \<in> set xs \<and> key_eq i (n_id (node_of py d)))"
proof (induction xs arbitrary: net)
  case Nil
  then show ?case by simp
next
  case (Cons x xs)
  from Cons.prems(1) obtain d net1 where x: "x = JObj d"
    and n1: "add_node net (node_of py d) = Inr net1"
    and rest: "add_nodes py net1 xs = Inr net'"
    by (auto split: json.splits sum.splits)
  from Cons.IH [OF rest Cons.prems(2)] add_node_has_node [OF n1] x show ?case
    by auto
qed

lemma build_network_list:
  "build_network py (JArr xs) =
     (case add_nodes py empty_network xs of Inl e \<Rightarrow> Inl e | Inr net \<Rightarrow> Inr (Some net))"
  by (simp add: build_network_def py_iter_def dict_get_def split: sum.splits)

subsection \<open>Edges\<close>

lemma add_edges_filter:
  "add_edges net es =
   add_edges net (filter (\<lambda>entry. case entry of JObj d \<Rightarrow> wanted_edge d | _ \<Rightarrow> True) es)"
proof (induction es arbitrary: net)
  case Nil
  then show ?case by simp
next
  case (Cons entry es)
  then show ?case
    by (cases entry) (simp_all split: sum.splits)
qed

lemma wanted_edge_iff:
  "wanted_edge d \<longleftrightarrow>
   (\<exists>s t. map_of d ''source'' = Some s \<and> truthy s \<and> map_of d ''target'' = Some t \<and> truthy t)"
  by (auto simp: wanted_edge_def dict_get_def split: option.splits)

lemma add_edges_single:
  "add_edges net [JObj d] =
     (if \<not> wanted_edge d then Inr net
      else if \<not> has_node net (e_from (edge_of d)) \<or> \<not> has_node net (e_to (edge_of d))
        then Inl AssertionError
      else if list_ex (\<lambda>e'. connects e' (e_from (edge_of d)) (e_to (edge_of d))) (edges net)
        then Inr net
      else Inr (net\<lparr>edges := edges net @ [edge_of d]\<rparr>))"
  by (simp add: add_edge_def)

lemma add_edge_nodes: "add_edge net e = Inr net' \<Longrightarrow> nodes net' = nodes net"
  by (auto simp: add_edge_def split: if_splits)

lemma add_edge_exn: "add_edge net e = Inl x \<Longrightarrow> x = AssertionError"
  by (auto simp: add_edge_def split: if_splits)

lemma add_edges_exn:
  "add_edges net es = Inl x \<Longrightarrow> x = AssertionError \<or> x = AttributeError"
proof (induction es arbitrary: net)
  case Nil
  then show ?case by simp
next
  case (Cons entry es)
  then show ?case
    by (auto split: json.splits sum.splits if_splits dest: add_edge_exn)
qed

lemma add_edges_dicts_exn:
  "add_edges net es = Inl x \<Longrightarrow> \<forall>entry\<in>set es. \<exists>m. entry = JObj m \<Longrightarrow> x = AssertionError"
proof (induction es arbitrary: net)
  case Nil
  then show ?case by simp
next
  case (Cons entry es)
  then show ?case
    by (auto split: sum.splits if_splits dest: add_edge_exn)
qed

lemma add_node_exn: "add_node net n = Inl x \<Longrightarrow> x = AssertionError"
  by (auto simp: add_node_def split: if_splits)

lemma add_nodes_dicts_exn:
  "add_nodes py net ns = Inl x \<Longrightarrow> \<forall>entry\<in>set ns. \<exists>m. entry = JObj m \<Longrightarrow> x = AssertionError"
proof (induction ns arbitrary: net)
  case Nil
  then show ?case by simp
next
  case (Cons entry ns)
  then show ?case
    by (auto split: sum.splits dest: add_node_exn)
qed

lemma add_nodes_exn:
  "add_nodes py net ns = Inl x \<Longrightarrow> x = AssertionError \<or> x = AttributeError"
proof (induction ns arbitrary: net)
  case Nil
  then show ?case by simp
next
  case (Cons entry ns)
  then show ?case
    by (auto split: json.splits sum.splits dest: add_node_exn)
qed

lemma add_edge_has_node: "add_edge net e = Inr net' \<Longrightarrow> has_node net' i = has_node net i"
  by (simp add: has_node_def add_edge_nodes)

lemma add_edge_dangling:
  "\<not> has_node net (e_from e) \<or> \<not> has_node net (e_to e) \<Longrightarrow> add_edge net e = Inl AssertionError"
  by (auto simp: add_edge_def)

lemma add_edges_dangling:
  assumes "JObj d \<in> set es" and "wanted_edge d"
    and "\<not> has_node net (e_from (edge_of d)) \<or> \<not> has_node net (e_to (edge_of d))"
  shows "\<exists>x. add_edges net es = Inl x"
  using assms
proof (induction es arbitrary: net)
  case Nil
  then show ?case by simp
next
  case (Cons entry es)
  show ?case
  proof (cases "entry = JObj d")
    case True
    with Cons.prems add_edge_dangling [of net "edge_of d"] show ?thesis by auto
  next
    case False
    with Cons.prems have mem: "JObj d \<in> set es" by simp
    show ?thesis
    proof (cases entry)
      case (JObj d')
      show ?thesis
      proof (cases "wanted_edge d'")
        case True
        show ?thesis
        proof (cases "add_edge net (edge_of d')")
          case (Inl x)
          with JObj True show ?thesis by simp
        next
          case (Inr net')
          from Cons.prems(3) add_edge_has_node [OF Inr]
          have "\<not> has_node net' (e_from (edge_of d)) \<or> \<not> has_node net' (e_to (edge_of d))"
            by simp
          from Cons.IH [OF mem Cons.prems(2) this] JObj True Inr show ?thesis by simp
        qed
      next
        case False
        with Cons.IH [OF mem Cons.prems(2) Cons.prems(3)] JObj show ?thesis by simp
      qed
    qed simp_all
  qed
qed

subsection \<open>The display\<close>

lemma display_results_dict:
  "display_results vis (JObj d) =
     (if d = [] then Inr [StError NoResponse]
      else if \<not> truthy (dict_get d ''edges'' JNull) then Inr [StError NoConnections]
      else
        (case vis (JObj d) of
           Inl e \<Rightarrow> Inl e
         | Inr (final_html, evs) \<Rightarrow> Inr (evs @ show_html final_html)))"
  by (simp add: display_results_def py_get_def)

lemma display_results_not_dict:
  "truthy data \<Longrightarrow> (\<forall>d. data \<noteq> JObj d) \<Longrightarrow> display_results vis data = Inl AttributeError"
  by (cases data) (simp_all add: display_results_def py_get_def)

section \<open>The response extractor on the test vectors\<close>

lemma vector1_clean:
  "clean_text (fence @ ''json\<newline>{\"nodes\":[]}\<newline>'' @ fence) = ''{\"nodes\":[]}''"
  by code_simp

lemma vector2_clean:
  "clean_text ''Here is the graph: {\"nodes\":[],\"edges\":[]} Hope this helps!'' =
   ''Here is the graph: {\"nodes\":[],\"edges\":[]} Hope this helps!''"
  by code_simp

lemma vector3_clean: "clean_text ''not json at all'' = ''not json at all''"
  by code_simp

lemma vector1_loads:
  "2 \<le> recursion_limit py \<Longrightarrow>
   json_loads py ''{\"nodes\":[]}'' = Inr (JObj [(''nodes'', JArr [])])"
  by (simp add: json_loads_def scan_simps is_json_ws_def)

lemma vector2_loads:
  "json_loads py ''Here is the graph: {\"nodes\":[],\"edges\":[]} Hope this helps!'' =
   Inl JSONDecodeError"
  by (simp add: json_loads_def scan_simps is_json_ws_def match_number_def int_part_def
      is_digit_def)

lemma vector2_search:
  "re_search ''Here is the graph: {\"nodes\":[],\"edges\":[]} Hope this helps!'' =
   Some ''{\"nodes\":[],\"edges\":[]}''"
  by (simp add: through_last_def)

lemma vector2_loads_match:
  "2 \<le> recursion_limit py \<Longrightarrow>
   json_loads py ''{\"nodes\":[],\"edges\":[]}'' =
   Inr (JObj [(''nodes'', JArr []), (''edges'', JArr [])])"
  by (simp add: json_loads_def scan_simps is_json_ws_def)

lemma vector3_loads: "json_loads py ''not json at all'' = Inl JSONDecodeError"
  by (simp add: json_loads_def scan_simps is_json_ws_def match_number_def int_part_def
      is_digit_def)

lemma vector3_search: "re_search ''not json at all'' = None"
  by simp

text \<open>
  Claim C1. After the cleaning that the caller applies, \<open>extract_json\<close> returns the
  dictionary with an empty list of nodes for the fenced text; for the text with prose around
  the object the direct parse fails, the search finds the text from the first brace to the
  last closing brace, and its parse is returned; for the text without JSON the result is
  \<^verbatim>\<open>None\<close> and no exception. The vectors nest two containers, so the interpreter has to
  allow that depth.
\<close>

theorem extract_json_test_vectors:
  assumes "2 \<le> recursion_limit py"
  shows "extract_json py (clean_text (fence @ ''json\<newline>{\"nodes\":[]}\<newline>'' @ fence)) =
           Inr (JObj [(''nodes'', JArr [])])
       \<and> json_loads py
           (clean_text ''Here is the graph: {\"nodes\":[],\"edges\":[]} Hope this helps!'') =
           Inl JSONDecodeError
       \<and> re_search (clean_text ''Here is the graph: {\"nodes\":[],\"edges\":[]} Hope this helps!'') =
           Some ''{\"nodes\":[],\"edges\":[]}''
       \<and> extract_json py
           (clean_text ''Here is the graph: {\"nodes\":[],\"edges\":[]} Hope this helps!'') =
           Inr (JObj [(''nodes'', JArr []), (''edges'', JArr [])])
       \<and> extract_json py (clean_text ''not json at all'') = Inr JNull"
proof -
  have v1: "extract_json py ''{\"nodes\":[]}'' = Inr (JObj [(''nodes'', JArr [])])"
    by (simp add: extract_json_def vector1_loads [OF assms])
  have v2: "extract_json py ''Here is the graph: {\"nodes\":[],\"edges\":[]} Hope this helps!'' =
      Inr (JObj [(''nodes'', JArr []), (''edges'', JArr [])])"
    by (simp add: extract_json_def vector2_loads vector2_search vector2_loads_match [OF assms]
        del: re_search.simps)
  have v3: "extract_json py ''not json at all'' = Inr JNull"
    by (simp add: extract_json_def vector3_loads vector3_search del: re_search.simps)
  show ?thesis
    unfolding vector1_clean vector2_clean vector3_clean
    using v1 v2 v3 vector2_loads vector2_search by blast
qed

theorem extract_json_test_vectors_witness:
  "extract_json (cpython (\<lambda>s. NaN) (\<lambda>f. []) (\<lambda>s. s))
     (clean_text (fence @ ''json\<newline>{\"nodes\":[]}\<newline>'' @ fence)) =
     Inr (JObj [(''nodes'', JArr [])])
   \<and> extract_json (cpython (\<lambda>s. NaN) (\<lambda>f. []) (\<lambda>s. s))
     (clean_text ''Here is the graph: {\"nodes\":[],\"edges\":[]} Hope this helps!'') =
     Inr (JObj [(''nodes'', JArr []), (''edges'', JArr [])])
   \<and> extract_json (cpython (\<lambda>s. NaN) (\<lambda>f. []) (\<lambda>s. s)) (clean_text ''not json at all'') =
     Inr JNull"
  using extract_json_test_vectors [of "cpython (\<lambda>s. NaN) (\<lambda>f. []) (\<lambda>s. s)"]
  by (simp add: cpython_def)

section \<open>The retry policy\<close>

lemma upt_max_retries: "[0..<max_retries] = [0, 1, 2]"
  by (simp add: max_retries_def upt_rec)

text \<open>
  Claim C2. A response with status 429 ends the call in the attempt that receives it: that
  attempt makes one request, the rate-limit message is shown, \<^verbatim>\<open>None\<close> is returned, and
  there is no sleep and no further request, whatever attempts were left. When the first
  response has status 429 the whole call makes exactly one request.
\<close>

theorem rate_limit_not_retried:
  assumes "post k = Inr resp" and "status_code resp = 429"
  shows "attempts py post (k # rest) = (JNull, [Post, StError RateLimitExceeded])
       \<and> (k = 0 \<longrightarrow> get_recommendations py post = (JNull, [Post, StError RateLimitExceeded]))"
  using assms
  by (auto simp: get_recommendations_def upt_max_retries handle_response_def)

theorem rate_limit_not_retried_witness:
  "get_recommendations (cpython (\<lambda>s. NaN) (\<lambda>f. []) (\<lambda>s. s))
     (\<lambda>k. Inr \<lparr>status_code = 429, body = []\<rparr>) = (JNull, [Post, StError RateLimitExceeded])"
  using rate_limit_not_retried [of "\<lambda>k. Inr \<lparr>status_code = 429, body = []\<rparr>" 0
      "\<lparr>status_code = 429, body = []\<rparr>" "cpython (\<lambda>s. NaN) (\<lambda>f. []) (\<lambda>s. s)" "[1, 2]"]
  by simp

text \<open>
  Claim C3. When every attempt is answered with status 503, the call makes exactly three
  requests, sleeps 2 seconds after the first and 5 seconds after the second (the first two
  delays of the schedule 2, 5, 10), and after the third reports a communication error that
  carries the HTTP error of status 503, returning \<^verbatim>\<open>None\<close>.
\<close>

theorem service_unavailable_retried:
  assumes "\<forall>k < max_retries. \<exists>resp. post k = Inr resp \<and> status_code resp = 503"
  shows "get_recommendations py post =
           (JNull, [Post, Sleep 2, Post, Sleep 5, Post,
                    StError (CommunicationError (HTTPError 503))])"
proof -
  from assms [rule_format, of 0] obtain r0 where r0: "post 0 = Inr r0" "status_code r0 = 503"
    by (auto simp: max_retries_def)
  from assms [rule_format, of 1] obtain r1 where r1: "post 1 = Inr r1" "status_code r1 = 503"
    by (auto simp: max_retries_def)
  from assms [rule_format, of 2] obtain r2 where r2: "post 2 = Inr r2" "status_code r2 = 503"
    by (auto simp: max_retries_def)
  from r0 r1 r2 show ?thesis
    unfolding get_recommendations_def upt_max_retries
    by (simp add: handle_response_def max_retries_def retry_delays_def raise_for_status_def)
qed

theorem service_unavailable_retried_witness:
  "get_recommendations (cpython (\<lambda>s. NaN) (\<lambda>f. []) (\<lambda>s. s))
     (\<lambda>k. Inr \<lparr>status_code = 503, body = []\<rparr>) =
   (JNull, [Post, Sleep 2, Post, Sleep 5, Post, StError (CommunicationError (HTTPError 503))])"
  using service_unavailable_retried [of "\<lambda>k. Inr \<lparr>status_code = 503, body = []\<rparr>"
      "cpython (\<lambda>s. NaN) (\<lambda>f. []) (\<lambda>s. s)"]
  by simp

section \<open>Nodes and edges of the rendered graph\<close>

text \<open>
  Claim C4. For every node entry: the identifier is the \<^verbatim>\<open>id\<close> when that is true, and the
  \<^verbatim>\<open>title\<close> when the \<^verbatim>\<open>id\<close> is missing or false and the title is true (it is always the
  label when the \<^verbatim>\<open>id\<close> is missing or false); the label is the
  title when that is true, and the string form of the \<^verbatim>\<open>id\<close> otherwise; a group that is
  missing or neither \<^verbatim>\<open>Seed\<close> nor \<^verbatim>\<open>Level2\<close> gives exactly the node that the group
  \<^verbatim>\<open>Recommended\<close> gives, with its colour and size; a missing \<^verbatim>\<open>author\<close>, \<^verbatim>\<open>reason\<close> or
  \<^verbatim>\<open>summary\<close> gives exactly the node that the default text in its place gives. The graph
  with the one node \<^verbatim>\<open>{"id": "A"}\<close> and no edges becomes the network with the node
  \<open>node_A\<close>.
\<close>

theorem node_entry_defaults:
  "(truthy (dict_get entry ''id'' JNull) \<longrightarrow> n_id (node_of py entry) = dict_get entry ''id'' JNull)
 \<and> (\<not> truthy (dict_get entry ''id'' JNull) \<and> truthy (dict_get entry ''title'' JNull) \<longrightarrow>
      n_id (node_of py entry) = dict_get entry ''title'' JNull)
 \<and> (\<not> truthy (dict_get entry ''id'' JNull) \<longrightarrow>
      n_id (node_of py entry) = n_label (node_of py entry))
 \<and> (truthy (dict_get entry ''title'' JNull) \<longrightarrow>
      n_label (node_of py entry) = dict_get entry ''title'' JNull)
 \<and> (\<not> truthy (dict_get entry ''title'' JNull) \<longrightarrow>
      n_label (node_of py entry) = JStr (py_str py (dict_get entry ''id'' JNull)))
 \<and> (dict_get entry ''group'' (JStr ''Recommended'') \<noteq> JStr ''Seed'' \<and>
    dict_get entry ''group'' (JStr ''Recommended'') \<noteq> JStr ''Level2'' \<longrightarrow>
      node_of py entry = node_of py (dict_set entry ''group'' (JStr ''Recommended'')) \<and>
      n_color (node_of py entry) = ''#4ECDC4'' \<and> n_size (node_of py entry) = 35)
 \<and> (map_of entry ''author'' = None \<longrightarrow>
      node_of py entry = node_of py (entry @ [(''author'', JStr ''Unknown Author'')]))
 \<and> (map_of entry ''reason'' = None \<longrightarrow>
      node_of py entry =
      node_of py (entry @ [(''reason'', JStr ''No recommendation reason provided.'')]))
 \<and> (map_of entry ''summary'' = None \<longrightarrow>
      node_of py entry = node_of py (entry @ [(''summary'', JStr ''No summary available.'')]))
 \<and> build_network py (JObj [(''nodes'', JArr [JObj [(''id'', JStr ''A'')]]), (''edges'', JArr [])]) =
      Inr (Some \<lparr>nodes = [node_A], edges = []\<rparr>)"
proof -
  have ids: "truthy (dict_get entry ''id'' JNull) \<longrightarrow>
      n_id (node_of py entry) = dict_get entry ''id'' JNull"
    by (simp add: node_of_def Let_def)
  have idt: "\<not> truthy (dict_get entry ''id'' JNull) \<and> truthy (dict_get entry ''title'' JNull) \<longrightarrow>
      n_id (node_of py entry) = dict_get entry ''title'' JNull"
    by (simp add: node_of_def Let_def py_or_def)
  have idl: "\<not> truthy (dict_get entry ''id'' JNull) \<longrightarrow>
      n_id (node_of py entry) = n_label (node_of py entry)"
    by (simp add: node_of_def Let_def)
  have lt: "truthy (dict_get entry ''title'' JNull) \<longrightarrow>
      n_label (node_of py entry) = dict_get entry ''title'' JNull"
    by (simp add: node_of_def Let_def py_or_def)
  have li: "\<not> truthy (dict_get entry ''title'' JNull) \<longrightarrow>
      n_label (node_of py entry) = JStr (py_str py (dict_get entry ''id'' JNull))"
    by (simp add: node_of_def Let_def py_or_def)
  have ex: "build_network py
      (JObj [(''nodes'', JArr [JObj [(''id'', JStr ''A'')]]), (''edges'', JArr [])]) =
      Inr (Some \<lparr>nodes = [node_A], edges = []\<rparr>)"
    by (simp add: build_network_def py_iter_def dict_get_def add_nodes_A del: add_nodes.simps)
  from ids idt idl lt li node_of_group_default [of entry py] node_of_author_default [of entry py]
    node_of_reason_default [of entry py] node_of_summary_default [of entry py] ex
  show ?thesis by blast
qed

theorem node_entry_defaults_witness:
  "n_id (node_of (cpython (\<lambda>s. NaN) (\<lambda>f. []) (\<lambda>s. s)) [(''id'', JStr ''A'')]) = JStr ''A''
 \<and> n_size (node_of (cpython (\<lambda>s. NaN) (\<lambda>f. []) (\<lambda>s. s)) [(''id'', JStr ''A'')]) = 35
 \<and> node_of (cpython (\<lambda>s. NaN) (\<lambda>f. []) (\<lambda>s. s)) [(''id'', JStr ''A'')] =
   node_of (cpython (\<lambda>s. NaN) (\<lambda>f. []) (\<lambda>s. s))
     ([(''id'', JStr ''A'')] @ [(''author'', JStr ''Unknown Author'')])
 \<and> n_id (node_of (cpython (\<lambda>s. NaN) (\<lambda>f. []) (\<lambda>s. s)) [(''title'', JStr ''B'')]) = JStr ''B''
 \<and> n_label (node_of (cpython (\<lambda>s. NaN) (\<lambda>f. []) (\<lambda>s. s)) [(''title'', JStr ''B'')]) = JStr ''B''"
proof -
  let ?P = "cpython (\<lambda>s. NaN) (\<lambda>f. []) (\<lambda>s. s)"
  let ?A = "[(''id'', JStr ''A'')]"
  let ?B = "[(''title'', JStr ''B'')]"
  have a: "truthy (dict_get ?A ''id'' JNull)" "dict_get ?A ''id'' JNull = JStr ''A''"
    "dict_get ?A ''group'' (JStr ''Recommended'') \<noteq> JStr ''Seed''"
    "dict_get ?A ''group'' (JStr ''Recommended'') \<noteq> JStr ''Level2''"
    "map_of ?A ''author'' = None"
    by (simp_all add: dict_get_def)
  have b: "\<not> truthy (dict_get ?B ''id'' JNull)" "truthy (dict_get ?B ''title'' JNull)"
    "dict_get ?B ''title'' JNull = JStr ''B''"
    by (simp_all add: dict_get_def)
  from a b node_entry_defaults [of ?A ?P] node_entry_defaults [of ?B ?P]
  show ?thesis by metis
qed

text \<open>
  Claim C5, as stated, fails: an entry with a \<^verbatim>\<open>source\<close> and a \<^verbatim>\<open>target\<close> that are present and
  not empty need not add an edge. In the graph with the nodes \<^verbatim>\<open>A\<close> and \<^verbatim>\<open>B\<close> and the two
  entries from \<^verbatim>\<open>A\<close> to \<^verbatim>\<open>B\<close> and from \<^verbatim>\<open>B\<close> to \<^verbatim>\<open>A\<close>, the second entry adds nothing: the
  network has the one edge of the first. In the graph with the node \<^verbatim>\<open>A\<close> alone and the entry
  from \<^verbatim>\<open>A\<close> to \<^verbatim>\<open>B\<close>, the entry adds no edge either: \<^verbatim>\<open>net.add_edge\<close> fails its assertion
  and there is no network at all.
\<close>

theorem edge_not_added_counterexample:
  "\<forall>py.
     wanted_edge [(''source'', JStr ''B''), (''target'', JStr ''A'')]
   \<and> build_network py
       (JObj [(''nodes'', JArr [JObj [(''id'', JStr ''A'')], JObj [(''id'', JStr ''B'')]]),
              (''edges'', JArr [JObj [(''source'', JStr ''A''), (''target'', JStr ''B'')],
                                JObj [(''source'', JStr ''B''), (''target'', JStr ''A'')]])]) =
       Inr (Some \<lparr>nodes = [node_A, node_of py [(''id'', JStr ''B'')]],
                  edges = [\<lparr>e_from = JStr ''A'', e_to = JStr ''B'',
                            e_label = JStr ''Related'', e_title = JStr ''Related''\<rparr>]\<rparr>)
   \<and> wanted_edge [(''source'', JStr ''A''), (''target'', JStr ''B'')]
   \<and> build_network py
       (JObj [(''nodes'', JArr [JObj [(''id'', JStr ''A'')]]),
              (''edges'', JArr [JObj [(''source'', JStr ''A''), (''target'', JStr ''B'')]])]) =
       Inl AssertionError"
proof -
  let ?AB = "[(''source'', JStr ''A''), (''target'', JStr ''B'')]"
  let ?BA = "[(''source'', JStr ''B''), (''target'', JStr ''A'')]"
  have w: "wanted_edge ?AB" "wanted_edge ?BA"
    by (simp_all add: wanted_edge_def dict_get_def)
  have e: "edge_of ?AB = \<lparr>e_from = JStr ''A'', e_to = JStr ''B'',
                            e_label = JStr ''Related'', e_title = JStr ''Related''\<rparr>"
    "e_from (edge_of ?BA) = JStr ''B''" "e_to (edge_of ?BA) = JStr ''A''"
    by (simp_all add: edge_of_def Let_def dict_get_def)
  have idB: "n_id (node_of py [(''id'', JStr ''B'')]) = JStr ''B''"
    "n_label (node_of py [(''id'', JStr ''B'')]) = JStr ''B''" for py
    by (simp_all add: node_of_def Let_def dict_get_def py_or_def py_str_def)
  have lblA: "n_label node_A = JStr ''A''"
    by (simp add: node_A_def)
  have two: "add_nodes py empty_network [JObj [(''id'', JStr ''A'')], JObj [(''id'', JStr ''B'')]] =
      Inr \<lparr>nodes = [node_A, node_of py [(''id'', JStr ''B'')]], edges = []\<rparr>" for py
    by (simp add: node_of_A add_node_def empty_network_def has_node_def node_A_id idB lblA
        is_str_or_int_def key_eq_def)
  have dup: "build_network py
       (JObj [(''nodes'', JArr [JObj [(''id'', JStr ''A'')], JObj [(''id'', JStr ''B'')]]),
              (''edges'', JArr [JObj ?AB, JObj ?BA])]) =
       Inr (Some \<lparr>nodes = [node_A, node_of py [(''id'', JStr ''B'')]],
                  edges = [\<lparr>e_from = JStr ''A'', e_to = JStr ''B'',
                            e_label = JStr ''Related'', e_title = JStr ''Related''\<rparr>]\<rparr>)" for py
    by (simp add: build_network_def py_iter_def dict_get_def two w e add_edge_def has_node_def
        node_A_id idB key_eq_def connects_def del: add_nodes.simps)
  have dangling: "build_network py
       (JObj [(''nodes'', JArr [JObj [(''id'', JStr ''A'')]]), (''edges'', JArr [JObj ?AB])]) =
       Inl AssertionError" for py
    by (simp add: build_network_def py_iter_def dict_get_def add_nodes_A w e add_edge_def
        has_node_def node_A_id key_eq_def del: add_nodes.simps)
  from w dup dangling show ?thesis by simp
qed

text \<open>
  Claim C5, amended. An edge entry goes to \<^verbatim>\<open>net.add_edge\<close> if and only if its \<^verbatim>\<open>source\<close> and
  its \<^verbatim>\<open>target\<close> are both present and true, which for strings is: not empty. Every other
  entry is passed over without an error, so a list of entries has the effect of its wanted
  entries alone. The edge carries the two ends and the label, \<^verbatim>\<open>'Related'\<close> when the entry
  has none, as label and as title. What one entry does to the network: nothing when it is
  passed over; the \<^verbatim>\<open>AssertionError\<close> of \<^verbatim>\<open>net.add_edge\<close> when one of its ends is no node;
  nothing when an edge joins its two ends already, in either direction; and in every other
  case its edge is appended. The graph with the edge \<^verbatim>\<open>{"source": "A"}\<close> gets no edge.
\<close>

theorem edge_entries_filtered:
  "(\<not> wanted_edge d \<longrightarrow> add_edges net (JObj d # rest) = add_edges net rest)
 \<and> (wanted_edge d \<longrightarrow>
      add_edges net (JObj d # rest) =
        (case add_edge net (edge_of d) of Inl e \<Rightarrow> Inl e | Inr net' \<Rightarrow> add_edges net' rest))
 \<and> (wanted_edge d \<longleftrightarrow>
      (\<exists>s t. map_of d ''source'' = Some s \<and> truthy s \<and> map_of d ''target'' = Some t \<and> truthy t))
 \<and> (\<forall>s t. map_of d ''source'' = Some (JStr s) \<and> map_of d ''target'' = Some (JStr t) \<longrightarrow>
      (wanted_edge d \<longleftrightarrow> s \<noteq> [] \<and> t \<noteq> []))
 \<and> add_edges net es =
      add_edges net (filter (\<lambda>entry. case entry of JObj d \<Rightarrow> wanted_edge d | _ \<Rightarrow> True) es)
 \<and> e_from (edge_of d) = dict_get d ''source'' JNull
 \<and> e_to (edge_of d) = dict_get d ''target'' JNull
 \<and> e_label (edge_of d) = dict_get d ''label'' (JStr ''Related'')
 \<and> e_title (edge_of d) = dict_get d ''label'' (JStr ''Related'')
 \<and> (map_of d ''label'' = None \<longrightarrow> e_label (edge_of d) = JStr ''Related'')
 \<and> add_edges net [JObj d] =
      (if \<not> wanted_edge d then Inr net
       else if \<not> has_node net (e_from (edge_of d)) \<or> \<not> has_node net (e_to (edge_of d))
         then Inl AssertionError
       else if list_ex (\<lambda>e'. connects e' (e_from (edge_of d)) (e_to (edge_of d))) (edges net)
         then Inr net
       else Inr (net\<lparr>edges := edges net @ [edge_of d]\<rparr>))
 \<and> build_network py
      (JObj [(''nodes'', JArr [JObj [(''id'', JStr ''A'')]]),
             (''edges'', JArr [JObj [(''source'', JStr ''A'')]])]) =
      Inr (Some \<lparr>nodes = [node_A], edges = []\<rparr>)"
proof -
  have str: "\<forall>s t. map_of d ''source'' = Some (JStr s) \<and> map_of d ''target'' = Some (JStr t) \<longrightarrow>
      (wanted_edge d \<longleftrightarrow> s \<noteq> [] \<and> t \<noteq> [])"
    by (simp add: wanted_edge_def dict_get_def)
  have fields: "e_from (edge_of d) = dict_get d ''source'' JNull"
    "e_to (edge_of d) = dict_get d ''target'' JNull"
    "e_label (edge_of d) = dict_get d ''label'' (JStr ''Related'')"
    "e_title (edge_of d) = dict_get d ''label'' (JStr ''Related'')"
    by (simp_all add: edge_of_def Let_def)
  have lbl: "map_of d ''label'' = None \<longrightarrow> e_label (edge_of d) = JStr ''Related''"
    by (simp add: edge_of_def Let_def dict_get_def)
  have ex: "build_network py
      (JObj [(''nodes'', JArr [JObj [(''id'', JStr ''A'')]]),
             (''edges'', JArr [JObj [(''source'', JStr ''A'')]])]) =
      Inr (Some \<lparr>nodes = [node_A], edges = []\<rparr>)"
    by (simp add: build_network_def py_iter_def dict_get_def add_nodes_A wanted_edge_def
        del: add_nodes.simps)
  have a: "\<not> wanted_edge d \<longrightarrow> add_edges net (JObj d # rest) = add_edges net rest"
    by simp
  have b: "wanted_edge d \<longrightarrow>
      add_edges net (JObj d # rest) =
        (case add_edge net (edge_of d) of Inl e \<Rightarrow> Inl e | Inr net' \<Rightarrow> add_edges net' rest)"
    by simp
  note c = wanted_edge_iff [of d]
  note f = add_edges_filter [of net es]
  note one = add_edges_single [of net d]
  show ?thesis
    apply (intro conjI)
    apply (rule a)
    apply (rule b)
    apply (rule c)
    apply (rule str)
    apply (rule f)
    apply (rule fields(1))
    apply (rule fields(2))
    apply (rule fields(3))
    apply (rule fields(4))
    apply (rule lbl)
    apply (rule one)
    apply (rule ex)
    done
qed

theorem edge_entries_filtered_witness:
  "add_edges \<lparr>nodes = [node_A], edges = []\<rparr> (JObj [(''source'', JStr ''A'')] # []) =
     add_edges \<lparr>nodes = [node_A], edges = []\<rparr> []
 \<and> add_edges \<lparr>nodes = [node_A], edges = []\<rparr>
     [JObj [(''source'', JStr ''A''), (''target'', JStr ''A'')]] =
     Inr \<lparr>nodes = [node_A],
          edges = [edge_of [(''source'', JStr ''A''), (''target'', JStr ''A'')]]\<rparr>
 \<and> add_edges \<lparr>nodes = [node_A],
               edges = [edge_of [(''source'', JStr ''A''), (''target'', JStr ''A'')]]\<rparr>
     [JObj [(''source'', JStr ''A''), (''target'', JStr ''A'')]] =
     Inr \<lparr>nodes = [node_A],
          edges = [edge_of [(''source'', JStr ''A''), (''target'', JStr ''A'')]]\<rparr>
 \<and> add_edges \<lparr>nodes = [node_A], edges = []\<rparr>
     [JObj [(''source'', JStr ''A''), (''target'', JStr ''B'')]] = Inl AssertionError
 \<and> e_label (edge_of [(''source'', JStr ''A''), (''target'', JStr ''A'')]) = JStr ''Related''"
proof -
  let ?P = "cpython (\<lambda>s. NaN) (\<lambda>f. []) (\<lambda>s. s)"
  let ?N = "\<lparr>nodes = [node_A], edges = []\<rparr>"
  let ?d1 = "[(''source'', JStr ''A'')]"
  let ?d2 = "[(''source'', JStr ''A''), (''target'', JStr ''A'')]"
  let ?d3 = "[(''source'', JStr ''A''), (''target'', JStr ''B'')]"
  let ?N2 = "\<lparr>nodes = [node_A], edges = [edge_of ?d2]\<rparr>"
  have 1: "\<not> wanted_edge ?d1"
    by (simp add: wanted_edge_def dict_get_def)
  have 2: "wanted_edge ?d2" "map_of ?d2 ''label'' = None" "wanted_edge ?d3"
    by (simp_all add: wanted_edge_def dict_get_def)
  have 3: "has_node ?N (e_from (edge_of ?d2))" "has_node ?N (e_to (edge_of ?d2))"
    "\<not> list_ex (\<lambda>e'. connects e' (e_from (edge_of ?d2)) (e_to (edge_of ?d2))) (edges ?N)"
    "?N\<lparr>edges := edges ?N @ [edge_of ?d2]\<rparr> = ?N2"
    by (simp_all add: edge_of_def Let_def dict_get_def has_node_def node_A_id key_eq_def)
  have 4: "has_node ?N2 (e_from (edge_of ?d2))" "has_node ?N2 (e_to (edge_of ?d2))"
    "list_ex (\<lambda>e'. connects e' (e_from (edge_of ?d2)) (e_to (edge_of ?d2))) (edges ?N2)"
    by (simp_all add: edge_of_def Let_def dict_get_def has_node_def node_A_id key_eq_def
        connects_def)
  have 5: "\<not> has_node ?N (e_to (edge_of ?d3))"
    by (simp add: edge_of_def Let_def dict_get_def has_node_def node_A_id key_eq_def)
  note one = conjunct2 [THEN conjunct2, THEN conjunct2, THEN conjunct2, THEN conjunct2,
      THEN conjunct2, THEN conjunct2, THEN conjunct2, THEN conjunct2, THEN conjunct2,
      THEN conjunct1]
  from 1 edge_entries_filtered [of ?d1 ?N "[]" "[]" ?P]
  have a: "add_edges ?N (JObj ?d1 # []) = add_edges ?N []" by blast
  have b: "add_edges ?N [JObj ?d2] = Inr ?N2"
    by (simp only: edge_entries_filtered [of ?d2 ?N "[]" "[]" ?P, THEN one] 2 3 simp_thms
        if_True if_False)
  have c: "add_edges ?N2 [JObj ?d2] = Inr ?N2"
    by (simp only: edge_entries_filtered [of ?d2 ?N2 "[]" "[]" ?P, THEN one] 2 4 simp_thms
        if_True if_False)
  have d: "add_edges ?N [JObj ?d3] = Inl AssertionError"
    by (simp only: edge_entries_filtered [of ?d3 ?N "[]" "[]" ?P, THEN one] 2 5 simp_thms
        if_True if_False)
  from 2 edge_entries_filtered [of ?d2 ?N "[]" "[]" ?P]
  have e: "e_label (edge_of ?d2) = JStr ''Related''" by blast
  from a b c d e show ?thesis by blast
qed

text \<open>
  Claim C6. A bare list is taken as the nodes of a graph without edges: the renderer builds
  the network of its entries, the same as for the dictionary with that list as \<^verbatim>\<open>nodes\<close>
  and an empty list as \<^verbatim>\<open>edges\<close>, and a network it returns has no edge. The list
  \<^verbatim>\<open>[{"id": "A"}]\<close> gives one node and no edge.
\<close>

theorem bare_list_is_nodes:
  "build_network py (JArr xs) =
     (case add_nodes py empty_network xs of Inl e \<Rightarrow> Inl e | Inr net \<Rightarrow> Inr (Some net))
 \<and> build_network py (JArr xs) =
     build_network py (JObj [(''nodes'', JArr xs), (''edges'', JArr [])])
 \<and> (\<forall>net. build_network py (JArr xs) = Inr (Some net) \<longrightarrow> edges net = [])
 \<and> build_network py (JArr [JObj [(''id'', JStr ''A'')]]) =
     Inr (Some \<lparr>nodes = [node_A], edges = []\<rparr>)"
proof -
  have a: "build_network py (JArr xs) =
      build_network py (JObj [(''nodes'', JArr xs), (''edges'', JArr [])])"
    by (simp add: build_network_def)
  have b: "\<forall>net. build_network py (JArr xs) = Inr (Some net) \<longrightarrow> edges net = []"
    by (auto simp: build_network_list empty_network_def split: sum.splits
        dest: add_nodes_edges)
  have c: "build_network py (JArr [JObj [(''id'', JStr ''A'')]]) =
      Inr (Some \<lparr>nodes = [node_A], edges = []\<rparr>)"
    by (simp add: build_network_list add_nodes_A del: add_nodes.simps)
  from build_network_list [of py xs] a b c show ?thesis by blast
qed

theorem bare_list_is_nodes_witness:
  "build_network (cpython (\<lambda>s. NaN) (\<lambda>f. []) (\<lambda>s. s)) (JArr [JObj [(''id'', JStr ''A'')]]) =
     Inr (Some \<lparr>nodes = [node_A], edges = []\<rparr>)
 \<and> edges \<lparr>nodes = [node_A], edges = []\<rparr> = []"
  using bare_list_is_nodes [of "cpython (\<lambda>s. NaN) (\<lambda>f. []) (\<lambda>s. s)" "[JObj [(''id'', JStr ''A'')]]"]
  by blast

section \<open>The caller\<close>

text \<open>
  Claim C7. For a graph value, a dictionary with the key \<^verbatim>\<open>nodes\<close>, whose \<^verbatim>\<open>edges\<close> are
  absent or an empty list (or any other false value), the caller shows the message that no
  connections could be generated, whatever the renderer is: the renderer is not called.
  When the \<^verbatim>\<open>edges\<close> are true the outcome is what the renderer returns.
\<close>

theorem zero_edges_is_content_failure:
  assumes "map_of d ''nodes'' \<noteq> None"
  shows "(map_of d ''edges'' = None \<or> map_of d ''edges'' = Some (JArr []) \<longrightarrow>
          (\<forall>vis. display_results vis (JObj d) = Inr [StError NoConnections]))
       \<and> (\<not> truthy (dict_get d ''edges'' JNull) \<longrightarrow>
          (\<forall>vis. display_results vis (JObj d) = Inr [StError NoConnections]))
       \<and> (truthy (dict_get d ''edges'' JNull) \<longrightarrow>
          (\<forall>vis. display_results vis (JObj d) =
             (case vis (JObj d) of
                Inl e \<Rightarrow> Inl e
              | Inr (final_html, evs) \<Rightarrow> Inr (evs @ show_html final_html))))"
proof -
  from assms have "d \<noteq> []" by auto
  then show ?thesis
    by (auto simp: display_results_dict dict_get_def)
qed

theorem zero_edges_is_content_failure_witness:
  "display_results (\<lambda>data. Inl KeyError)
     (JObj [(''nodes'', JArr [JObj [(''id'', JStr ''A'')]]), (''edges'', JArr [])]) =
     Inr [StError NoConnections]
 \<and> display_results (\<lambda>data. Inl KeyError) (JObj [(''nodes'', JArr [JObj [(''id'', JStr ''A'')]])]) =
     Inr [StError NoConnections]"
proof -
  let ?d1 = "[(''nodes'', JArr [JObj [(''id'', JStr ''A'')]]), (''edges'', JArr [])]"
  let ?d2 = "[(''nodes'', JArr [JObj [(''id'', JStr ''A'')]])]"
  have 1: "map_of ?d1 ''nodes'' \<noteq> None" "map_of ?d1 ''edges'' = Some (JArr [])" by simp_all
  have 2: "map_of ?d2 ''nodes'' \<noteq> None" "map_of ?d2 ''edges'' = None" by simp_all
  from zero_edges_is_content_failure [OF 1(1)] 1(2) zero_edges_is_content_failure [OF 2(1)] 2(2)
  show ?thesis by blast
qed

text \<open>
  Claim C8, as stated, fails: in the graph with the node \<^verbatim>\<open>A\<close> and the edge from \<^verbatim>\<open>A\<close> to
  \<^verbatim>\<open>B\<close> the target is no node, and the renderer ends in the \<^verbatim>\<open>AssertionError\<close> of
  \<^verbatim>\<open>net.add_edge\<close> instead of a document.
\<close>

theorem dangling_edge_counterexample:
  "\<forall>py save. visualize_network py save
     (JObj [(''nodes'', JArr [JObj [(''id'', JStr ''A'')]]),
            (''edges'', JArr [JObj [(''source'', JStr ''A''), (''target'', JStr ''B'')]])]) =
     Inl AssertionError"
  by (simp add: visualize_network_def build_network_def py_iter_def dict_get_def add_nodes_A
      wanted_edge_def edge_of_def Let_def add_edge_def has_node_def node_A_id
      key_eq_def del: add_nodes.simps)

text \<open>
  Claim C8, amended. The renderer does not compare the ends of an edge with the nodes; it
  hands every edge with two true ends to the network, which asserts that both are nodes. In
  a graph whose \<^verbatim>\<open>nodes\<close> and \<^verbatim>\<open>edges\<close> are lists, an edge entry with two true ends of which
  one equals the identifier of no node makes \<^verbatim>\<open>visualize_network\<close> raise: it returns no
  document, whole or partial. The exception is the \<^verbatim>\<open>AssertionError\<close> of the network when
  every entry of the two lists is a dictionary, and otherwise that or the
  \<^verbatim>\<open>AttributeError\<close> of an entry that is none.
\<close>

theorem dangling_edge_raises:
  assumes "map_of d ''nodes'' = Some (JArr ns)" and "map_of d ''edges'' = Some (JArr es)"
    and "JObj e \<in> set es" and "wanted_edge e"
    and "\<not> (\<exists>n. JObj n \<in> set ns \<and> key_eq (dict_get e ''source'' JNull) (n_id (node_of py n)))
       \<or> \<not> (\<exists>n. JObj n \<in> set ns \<and> key_eq (dict_get e ''target'' JNull) (n_id (node_of py n)))"
  shows "(\<exists>x. visualize_network py save (JObj d) = Inl x)
       \<and> (visualize_network py save (JObj d) = Inl AssertionError
          \<or> visualize_network py save (JObj d) = Inl AttributeError)
       \<and> ((\<forall>entry\<in>set ns \<union> set es. \<exists>m. entry = JObj m) \<longrightarrow>
            visualize_network py save (JObj d) = Inl AssertionError)"
proof (cases "add_nodes py empty_network ns")
  case (Inl x)
  with assms(1) have v: "visualize_network py save (JObj d) = Inl x"
    by (simp add: visualize_network_def build_network_def py_iter_def dict_get_def)
  from add_nodes_exn [OF Inl] have x: "x = AssertionError \<or> x = AttributeError" .
  from add_nodes_dicts_exn [OF Inl]
  have "(\<forall>entry\<in>set ns \<union> set es. \<exists>m. entry = JObj m) \<longrightarrow> x = AssertionError"
    by blast
  with v x show ?thesis by blast
next
  case (Inr net)
  have none: "\<not> has_node empty_network i" for i
    by (simp add: has_node_def empty_network_def)
  from assms(5) add_nodes_has_node [OF Inr] none
  have "\<not> has_node net (e_from (edge_of e)) \<or> \<not> has_node net (e_to (edge_of e))"
    by (auto simp: edge_of_def Let_def)
  from add_edges_dangling [OF assms(3,4) this] obtain x where ex: "add_edges net es = Inl x" ..
  with assms(1,2) Inr have v: "visualize_network py save (JObj d) = Inl x"
    by (simp add: visualize_network_def build_network_def py_iter_def dict_get_def)
  from add_edges_exn [OF ex] have x: "x = AssertionError \<or> x = AttributeError" .
  from add_edges_dicts_exn [OF ex]
  have "(\<forall>entry\<in>set ns \<union> set es. \<exists>m. entry = JObj m) \<longrightarrow> x = AssertionError"
    by blast
  with v x show ?thesis by blast
qed

theorem dangling_edge_raises_witness:
  "(\<exists>x. visualize_network (cpython (\<lambda>s. NaN) (\<lambda>f. []) (\<lambda>s. s)) (\<lambda>net. Inr ''<head></head>'')
     (JObj [(''nodes'', JArr [JObj [(''id'', JStr ''A'')]]),
            (''edges'', JArr [JObj [(''source'', JStr ''A''), (''target'', JStr ''B'')]])]) =
     Inl x)
 \<and> visualize_network (cpython (\<lambda>s. NaN) (\<lambda>f. []) (\<lambda>s. s)) (\<lambda>net. Inr ''<head></head>'')
     (JObj [(''nodes'', JArr [JObj [(''id'', JStr ''A'')]]),
            (''edges'', JArr [JObj [(''source'', JStr ''A''), (''target'', JStr ''B'')]])]) =
     Inl AssertionError"
proof -
  let ?P = "cpython (\<lambda>s. NaN) (\<lambda>f. []) (\<lambda>s. s)"
  let ?e = "[(''source'', JStr ''A''), (''target'', JStr ''B'')]"
  let ?ns = "[JObj [(''id'', JStr ''A'')]]"
  let ?d = "[(''nodes'', JArr ?ns), (''edges'', JArr [JObj ?e])]"
  have 1: "map_of ?d ''nodes'' = Some (JArr ?ns)" "map_of ?d ''edges'' = Some (JArr [JObj ?e])"
    "JObj ?e \<in> set [JObj ?e]" "wanted_edge ?e"
    by (simp_all add: wanted_edge_def dict_get_def)
  have 2: "\<not> (\<exists>n. JObj n \<in> set ?ns \<and> key_eq (dict_get ?e ''source'' JNull) (n_id (node_of ?P n)))
      \<or> \<not> (\<exists>n. JObj n \<in> set ?ns \<and> key_eq (dict_get ?e ''target'' JNull) (n_id (node_of ?P n)))"
    by (simp add: dict_get_def node_of_A node_A_id key_eq_def)
  have 3: "\<forall>entry\<in>set ?ns \<union> set [JObj ?e]. \<exists>m. entry = JObj m"
    by simp
  from dangling_edge_raises [OF 1 2] 3 show ?thesis by blast
qed

lemma bare_list_reply_loads:
  "6 \<le> recursion_limit py \<Longrightarrow>
   json_loads py bare_list_reply =
   Inr (JObj [(''candidates'', JArr [JObj [(''content'',
          JObj [(''parts'', JArr [JObj [(''text'', JStr ''[{\"id\":\"A\"}]'')]])])]])])"
  by (simp add: bare_list_reply_def json_loads_def scan_simps is_json_ws_def backslash_def)

lemma bare_list_text_clean: "clean_text ''[{\"id\":\"A\"}]'' = ''[{\"id\":\"A\"}]''"
  by code_simp

lemma bare_list_text_loads:
  "2 \<le> recursion_limit py \<Longrightarrow>
   json_loads py ''[{\"id\":\"A\"}]'' = Inr (JArr [JObj [(''id'', JStr ''A'')]])"
  by (simp add: json_loads_def scan_simps is_json_ws_def)

lemma bare_list_reply_handled:
  assumes "6 \<le> recursion_limit py"
  shows "handle_response py k \<lparr>status_code = 200, body = bare_list_reply\<rparr> =
    Inr ([], Some (JArr [JObj [(''id'', JStr ''A'')]]))"
proof -
  from assms have two: "2 \<le> recursion_limit py" by simp
  show ?thesis
    by (simp add: handle_response_def raise_for_status_def bare_list_reply_loads [OF assms]
        py_contains_def py_getitem_def candidate_text_def py_first_def bare_list_text_clean
        extract_json_def bare_list_text_loads [OF two])
qed

text \<open>
  Claim C9 fails on the code. Every value that is true and no dictionary, a list that is
  not empty among them, makes the caller raise \<^verbatim>\<open>AttributeError\<close> at \<^verbatim>\<open>data.get('edges')\<close>,
  and nothing catches it. Such a value does arrive: for the answer \<open>bare_list_reply\<close> the
  client returns the list \<^verbatim>\<open>[{"id": "A"}]\<close> after one request, and the analysis ends in the
  exception.
\<close>

theorem bare_list_answer_is_unhandled:
  "(truthy data \<and> (\<forall>d. data \<noteq> JObj d) \<longrightarrow> display_results vis data = Inl AttributeError)
 \<and> (6 \<le> recursion_limit py \<and> post 0 = Inr \<lparr>status_code = 200, body = bare_list_reply\<rparr> \<longrightarrow>
      get_recommendations py post = (JArr [JObj [(''id'', JStr ''A'')]], [Post]) \<and>
      analysis py post save = Inl AttributeError)"
proof -
  have "get_recommendations py post = (JArr [JObj [(''id'', JStr ''A'')]], [Post])"
    if "6 \<le> recursion_limit py" "post 0 = Inr \<lparr>status_code = 200, body = bare_list_reply\<rparr>"
    using that unfolding get_recommendations_def upt_max_retries
    by (simp add: bare_list_reply_handled)
  moreover have "display_results vis' (JArr [JObj [(''id'', JStr ''A'')]]) = Inl AttributeError"
    for vis'
    by (simp add: display_results_not_dict)
  ultimately show ?thesis
    using display_results_not_dict [of data vis] by (auto simp: analysis_def)
qed

theorem bare_list_answer_is_unhandled_witness:
  "display_results (\<lambda>data. Inr (Some ''x'', [])) (JArr [JObj [(''id'', JStr ''A'')]]) =
     Inl AttributeError
 \<and> analysis (cpython (\<lambda>s. NaN) (\<lambda>f. []) (\<lambda>s. s))
     (\<lambda>k. Inr \<lparr>status_code = 200, body = bare_list_reply\<rparr>) (\<lambda>net. Inr ''<head></head>'') =
     Inl AttributeError"
proof -
  let ?P = "cpython (\<lambda>s. NaN) (\<lambda>f. []) (\<lambda>s. s)"
  let ?data = "JArr [JObj [(''id'', JStr ''A'')]]"
  let ?post = "\<lambda>k::nat. (Inr \<lparr>status_code = 200, body = bare_list_reply\<rparr> :: exn + response)"
  have 1: "truthy ?data \<and> (\<forall>d. ?data \<noteq> JObj d)" by simp
  have 2: "6 \<le> recursion_limit ?P \<and> ?post 0 = Inr \<lparr>status_code = 200, body = bare_list_reply\<rparr>"
    by (simp add: cpython_def)
  from 1 2 bare_list_answer_is_unhandled
      [of ?data "\<lambda>data. Inr (Some ''x'', [])" ?P ?post "\<lambda>net. Inr ''<head></head>''"]
  show ?thesis by blast
qed

section \<open>Exceptions of the extractor\<close>

text \<open>
  The decoder raises \<^verbatim>\<open>JSONDecodeError\<close>, \<^verbatim>\<open>RecursionError\<close> or \<^verbatim>\<open>ValueError\<close> and nothing
  else, so these two are the exceptions that can leave \<open>extract_json\<close>: the nesting
  limit, and the limit on the digits of an integer literal.
\<close>

lemma scanstring_exn: "scanstring acc s = Inl e \<Longrightarrow> e = JSONDecodeError"
proof (induction acc s rule: scanstring.induct)
  case (1 acc)
  then show ?case by simp
next
  case (2 acc c cs)
  show ?case
  proof (cases "c = CHR 0x22")
    case True
    with "2.prems" show ?thesis by simp
  next
    case nq: False
    show ?thesis
    proof (cases "c = CHR 0x5C")
      case True
      with nq "2.prems" "2.IH"(1,2) show ?thesis
        by (fastforce split: list.splits if_splits option.splits)
    next
      case False
      with nq "2.prems" "2.IH"(3) show ?thesis
        by (fastforce split: if_splits)
    qed
  qed
qed

lemma match_number_exn:
  "match_number py s = Inl e \<Longrightarrow> e = JSONDecodeError \<or> e = ValueError"
  by (auto simp: match_number_def Let_def split: option.splits if_splits)

lemma scan_once_exn:
  "scan_once py d s = Inl e \<Longrightarrow> decoder_exn e"
  "parse_array py d acc s = Inl e \<Longrightarrow> decoder_exn e"
  "parse_object py d acc' s = Inl e \<Longrightarrow> decoder_exn e"
proof (induction py d s and py d acc s and py d acc' s arbitrary: e and e and e
    rule: scan_once_parse_array_parse_object.induct)
  case (1 py d s)
  note prem = "1.prems" [unfolded scan_once.simps [of py d s]]
  show ?case
  proof (cases s)
    case Nil
    with prem show ?thesis by (simp add: decoder_exn_def)
  next
    case (Cons c cs)
    consider (str) "c = CHR 0x22"
      | (obj) "c \<noteq> CHR 0x22" "c = CHR ''{''"
      | (arr) "c \<noteq> CHR 0x22" "c \<noteq> CHR ''{''" "c = CHR ''[''"
      | (other) "c \<noteq> CHR 0x22" "c \<noteq> CHR ''{''" "c \<noteq> CHR ''[''"
      by blast
    then show ?thesis
    proof cases
      case str
      with prem Cons have "scanstring [] cs = Inl e"
        by (auto split: sum.splits)
      from scanstring_exn [OF this] show ?thesis by (simp add: decoder_exn_def)
    next
      case obj
      show ?thesis
      proof (cases "recursion_limit py \<le> d")
        case True
        with prem Cons obj show ?thesis by (simp add: decoder_exn_def)
      next
        case nl: False
        show ?thesis
        proof (cases "skip_ws cs")
          case Nil
          with prem Cons obj nl show ?thesis by (simp add: decoder_exn_def)
        next
          case sk: (Cons c1 r1)
          show ?thesis
          proof (cases "c1 = CHR ''}''")
            case True
            with prem Cons obj nl sk show ?thesis by simp
          next
            case False
            with prem Cons obj nl sk have "parse_object py (Suc d) [] (c1 # r1) = Inl e"
              by simp
            from "1.IH"(1) [OF Cons obj nl sk False this] show ?thesis .
          qed
        qed
      qed
    next
      case arr
      show ?thesis
      proof (cases "recursion_limit py \<le> d")
        case True
        with prem Cons arr show ?thesis by (simp add: decoder_exn_def)
      next
        case nl: False
        show ?thesis
        proof (cases "skip_ws cs")
          case Nil
          with prem Cons arr nl show ?thesis by (simp add: decoder_exn_def)
        next
          case sk: (Cons c1 r1)
          show ?thesis
          proof (cases "c1 = CHR '']''")
            case True
            with prem Cons arr nl sk show ?thesis by simp
          next
            case False
            with prem Cons arr nl sk have "parse_array py (Suc d) [] (c1 # r1) = Inl e"
              by simp
            from "1.IH"(2) [OF Cons arr nl sk False this] show ?thesis .
          qed
        qed
      qed
    next
      case other
      with prem Cons have "match_number py s = Inl e"
        by (auto split: if_splits)
      from match_number_exn [OF this] show ?thesis by (auto simp: decoder_exn_def)
    qed
  qed
next
  case (2 py d acc s)
  note prem = "2.prems" [unfolded parse_array.simps [of py d acc s]]
  show ?case
  proof (cases "scan_once py d s")
    case (Inl x)
    with prem have "x = e" by simp
    with Inl "2.IH"(1) show ?thesis by simp
  next
    case (Inr p)
    obtain v' r' where p: "p = (v', r')" by (cases p)
    with Inr have sc: "scan_once py d s = Inr (v', r')" by simp
    show ?thesis
    proof (cases "length s \<le> length r'")
      case True
      with prem sc show ?thesis by (simp add: decoder_exn_def)
    next
      case len: False
      show ?thesis
      proof (cases "skip_ws r'")
        case Nil
        with prem sc len show ?thesis by (simp add: decoder_exn_def)
      next
        case sk: (Cons c r1)
        show ?thesis
        proof (cases "c = CHR '']''")
          case True
          with prem sc len sk show ?thesis by simp
        next
          case nb: False
          show ?thesis
          proof (cases "c = CHR '',''")
            case True
            with prem sc len sk nb
            have "parse_array py d (acc @ [v']) (skip_ws r1) = Inl e" by simp
            from "2.IH"(2) [OF sc refl len sk nb True this] show ?thesis .
          next
            case False
            with prem sc len sk nb show ?thesis by (simp add: decoder_exn_def)
          qed
        qed
      qed
    qed
  qed
next
  case (3 py d acc s)
  note prem = "3.prems" [unfolded parse_object.simps [of py d acc s]]
  show ?case
  proof (cases s)
    case Nil
    with prem show ?thesis by (simp add: decoder_exn_def)
  next
    case s: (Cons q r0)
    show ?thesis
    proof (cases "q \<noteq> CHR 0x22")
      case True
      with prem s show ?thesis by (simp add: decoder_exn_def)
    next
      case q: False
      show ?thesis
      proof (cases "scanstring [] r0")
        case (Inl x)
        with prem s q scanstring_exn [OF Inl] show ?thesis by (simp add: decoder_exn_def)
      next
        case (Inr p)
        obtain key r1 where "p = (key, r1)" by (cases p)
        with Inr have ss: "scanstring [] r0 = Inr (key, r1)" by simp
        show ?thesis
        proof (cases "skip_ws r1")
          case Nil
          with prem s q ss show ?thesis by (simp add: decoder_exn_def)
        next
          case sk1: (Cons c r2)
          show ?thesis
          proof (cases "c \<noteq> CHR '':''")
            case True
            with prem s q ss sk1 show ?thesis by (simp add: decoder_exn_def)
          next
            case c: False
            show ?thesis
            proof (cases "scan_once py d (skip_ws r2)")
              case (Inl x)
              with prem s q ss sk1 c have "x = e" by simp
              with Inl "3.IH"(1) [OF s q ss refl sk1 c] show ?thesis by simp
            next
              case (Inr p')
              obtain v' r3 where "p' = (v', r3)" by (cases p')
              with Inr have sc: "scan_once py d (skip_ws r2) = Inr (v', r3)" by simp
              show ?thesis
              proof (cases "length (skip_ws r2) \<le> length r3")
                case True
                with prem s q ss sk1 c sc show ?thesis by (simp add: decoder_exn_def)
              next
                case len: False
                show ?thesis
                proof (cases "skip_ws r3")
                  case Nil
                  with prem s q ss sk1 c sc len show ?thesis by (simp add: decoder_exn_def)
                next
                  case sk: (Cons c' r4)
                  show ?thesis
                  proof (cases "c' = CHR ''}''")
                    case True
                    with prem s q ss sk1 c sc len sk show ?thesis by simp
                  next
                    case nb: False
                    show ?thesis
                    proof (cases "c' = CHR '',''")
                      case True
                      with prem s q ss sk1 c sc len sk nb
                      have "parse_object py d (dict_set acc key v') (skip_ws r4) = Inl e"
                        by simp
                      from "3.IH"(2) [OF s q ss refl sk1 c sc refl len sk nb True this]
                      show ?thesis .
                    next
                      case False
                      with prem s q ss sk1 c sc len sk nb show ?thesis
                        by (simp add: decoder_exn_def)
                    qed
                  qed
                qed
              qed
            qed
          qed
        qed
      qed
    qed
  qed
qed

lemma json_loads_exn: "json_loads py s = Inl e \<Longrightarrow> decoder_exn e"
  by (auto simp: json_loads_def decoder_exn_def [of JSONDecodeError]
      split: if_splits sum.splits dest: scan_once_exn(1))

lemma extract_json_exn:
  "extract_json py text = Inl e \<Longrightarrow> e = RecursionError \<or> e = ValueError"
  by (auto simp: extract_json_def decoder_exn_def split: sum.splits if_splits option.splits
      dest: json_loads_exn)

lemma long_integer_escapes:
  assumes "int_max_str_digits py = Some m"
  shows "extract_json py (replicate (Suc m) (CHR ''1'')) = Inl ValueError"
proof -
  have d: "is_digit (CHR ''1'')" by (simp add: is_digit_def)
  have tw: "takeWhile is_digit (replicate m (CHR ''1'')) = replicate m (CHR ''1'')"
    using d by (simp add: takeWhile_eq_all_conv)
  have dw: "dropWhile is_digit (replicate m (CHR ''1'')) = []"
    using d by (simp add: dropWhile_eq_Nil_conv)
  have ip: "int_part (replicate (Suc m) (CHR ''1'')) = Some (replicate (Suc m) (CHR ''1''), [])"
    using d by (simp add: int_part_def tw dw)
  have mn: "match_number py (replicate (Suc m) (CHR ''1'')) = Inl ValueError"
    using assms by (simp add: match_number_def Let_def ip [simplified] frac_part_def exp_part_def)
  have "scan_once py 0 (replicate (Suc m) (CHR ''1'')) = Inl ValueError"
    using mn by (simp add: scan_once.simps)
  then show ?thesis
    by (simp add: extract_json_def json_loads_def is_json_ws_def skip_ws_def)
qed

lemma replicate_bracket_scan:
  "d \<le> recursion_limit py \<Longrightarrow>
   scan_once py d (replicate (Suc (recursion_limit py - d)) (CHR ''['')) = Inl RecursionError"
proof (induction "recursion_limit py - d" arbitrary: d)
  case 0
  then have "recursion_limit py \<le> d" by simp
  with 0 show ?case by (simp add: scan_once.simps)
next
  case (Suc m)
  then have lt: "\<not> recursion_limit py \<le> d" and m: "m = recursion_limit py - Suc d"
    and le: "Suc d \<le> recursion_limit py"
    by simp_all
  from Suc.hyps(1) [OF m le] m
  have ih: "scan_once py (Suc d) (replicate (Suc m) (CHR ''['')) = Inl RecursionError"
    by simp
  have "parse_array py (Suc d) [] (CHR ''['' # replicate m (CHR ''['')) = Inl RecursionError"
    using ih by (simp add: parse_array.simps)
  with lt Suc.hyps(2) [symmetric] show ?case
    by (simp add: scan_once.simps [of py d] is_json_ws_def)
qed

text \<open>
  Claim C10 fails on the code in its last part. A text that opens one list more than the
  interpreter allows makes \<^verbatim>\<open>json.loads\<close> raise \<^verbatim>\<open>RecursionError\<close> in the first \<^verbatim>\<open>try\<close>,
  which catches \<^verbatim>\<open>JSONDecodeError\<close> only: \<open>extract_json\<close> raises.
\<close>

theorem deep_nesting_escapes_extract_json:
  "extract_json py (replicate (Suc (recursion_limit py)) (CHR ''['')) = Inl RecursionError"
  using replicate_bracket_scan [of 0 py]
  by (simp add: extract_json_def json_loads_def is_json_ws_def)

theorem deep_nesting_escapes_extract_json_witness:
  "extract_json (cpython (\<lambda>s. NaN) (\<lambda>f. []) (\<lambda>s. s)) (replicate (Suc 993) (CHR ''['')) =
     Inl RecursionError"
proof -
  have "recursion_limit (cpython (\<lambda>s. NaN) (\<lambda>f. []) (\<lambda>s. s)) = 993"
    by (simp add: cpython_def)
  with deep_nesting_escapes_extract_json [of "cpython (\<lambda>s. NaN) (\<lambda>f. []) (\<lambda>s. s)"]
  show ?thesis by simp
qed

text \<open>
  The rest of claim C10 holds: a parsed \<^verbatim>\<open>null\<close> and a text without JSON both give
  \<^verbatim>\<open>None\<close>, and the caller answers \<^verbatim>\<open>None\<close> with the message that there is no response.
\<close>

lemma null_loads: "json_loads py ''null'' = Inr JNull"
  by (simp add: json_loads_def scan_once.simps is_json_ws_def)

lemma null_is_no_json:
  "extract_json py ''null'' = Inr JNull
 \<and> extract_json py ''not json at all'' = Inr JNull
 \<and> display_results vis JNull = Inr [StError NoResponse]"
  by (simp add: extract_json_def null_loads vector3_loads vector3_search display_results_def
      del: re_search.simps)

end
